theory Spec2Isabelle
  imports Main "HOL-Library.Sublist"
begin

section \<open>Strings and the platform's string operations\<close>

text \<open>
  The components under study are written in TypeScript.  A string is modelled as a
  \<^typ>\<open>string\<close>, a list of 8-bit characters: the code units \<open>0 .. 255\<close> of a
  JavaScript string.  The white space recognised by \<open>String.prototype.trim\<close> and by
  the regular-expression class \<open>\s\<close> is the same set; in the 8-bit range it is TAB, LF,
  VT, FF, CR, SPACE and NBSP.
\<close>

definition is_space :: "char \<Rightarrow> bool" where
  "is_space c \<longleftrightarrow> c \<in> {CHR 0x09, CHR 0x0A, CHR 0x0B, CHR 0x0C, CHR 0x0D, CHR 0x20, CHR 0xA0}"

text \<open>\<open>s.trim()\<close>: white space removed at both ends.\<close>

definition trim :: "string \<Rightarrow> string" where
  "trim s = rev (dropWhile is_space (rev (dropWhile is_space s)))"

text \<open>\<open>s.replace(/;?\s*$/, '')\<close>: the leftmost position from which the rest of the
  string is an optional semicolon followed by white space only is where the match starts,
  and the match runs to the end of the string.\<close>

fun replace_opt_semi_end :: "string \<Rightarrow> string" where
  "replace_opt_semi_end [] = []"
| "replace_opt_semi_end (c # cs) =
     (if (c = CHR '';'' \<and> list_all is_space cs) \<or> list_all is_space (c # cs) then []
      else c # replace_opt_semi_end cs)"

section \<open>The completeness scanner: \<open>isCompleteJSON\<close>\<close>

text \<open>
  \<open>isCompleteJSON\<close> occurs twice, in the table component and in the chart component, with
  the same body.  Its local variables are the fields of \<open>scan_state\<close>; the \<open>for\<close> loop over
  the index \<open>i\<close> is the recursion of \<open>scan_loop\<close> over the characters from \<open>i\<close> on, so
  that \<open>trimmed.slice(i + 1)\<close> is the tail of the list.
\<close>

record scan_state =
  braceCount :: int
  inString :: bool
  stringChar :: "char option"
  escapeNext :: bool

definition scan_init :: scan_state where
  "scan_init = \<lparr>braceCount = 0, inString = False, stringChar = None, escapeNext = False\<rparr>"

fun scan_loop :: "string \<Rightarrow> scan_state \<Rightarrow> bool" where
  "scan_loop [] st = (braceCount st = 0)"
| "scan_loop (c # cs) st =
     (if escapeNext st then scan_loop cs (st\<lparr>escapeNext := False\<rparr>)
      else if c = CHR 0x5C then scan_loop cs (st\<lparr>escapeNext := True\<rparr>)
      else if (c = CHR 0x22 \<or> c = CHR 0x27) \<and> \<not> escapeNext st then
        (if \<not> inString st then scan_loop cs (st\<lparr>inString := True, stringChar := Some c\<rparr>)
         else if Some c = stringChar st
           then scan_loop cs (st\<lparr>inString := False, stringChar := None\<rparr>)
         else scan_loop cs st)
      else if \<not> inString st then
        (if c = CHR ''{'' then scan_loop cs (st\<lparr>braceCount := braceCount st + 1\<rparr>)
         else if c = CHR ''}'' then
           (if braceCount st - 1 = 0 then replace_opt_semi_end (trim cs) = []
            else scan_loop cs (st\<lparr>braceCount := braceCount st - 1\<rparr>))
         else scan_loop cs st)
      else scan_loop cs st)"

definition isCompleteJSON :: "string \<Rightarrow> bool" where
  "isCompleteJSON str =
     (let trimmed = trim str
      in if \<not> prefix ''{'' trimmed then False else scan_loop trimmed scan_init)"

section \<open>The regular expressions of the block parsers\<close>

text \<open>
  The table and chart components locate and repair an \<open>option = { ... }\<close> assignment with
  regular expressions.  Each expression is modelled by the function that computes what
  the platform's matcher computes for it: the leftmost match, greedy quantifiers, and for
  a global replacement the matches found one after the other from the end of the previous
  one.  In every expression below the alternatives at a position exclude each other (white
  space, identifier characters and punctuation are disjoint), so backtracking never finds
  a second way to match.
\<close>

definition is_alpha :: "char \<Rightarrow> bool" where
  "is_alpha c \<longleftrightarrow> c \<in> set ''abcdefghijklmnopqrstuvwxyzABCDEFGHIJKLMNOPQRSTUVWXYZ''"

definition is_digit :: "char \<Rightarrow> bool" where
  "is_digit c \<longleftrightarrow> c \<in> set ''0123456789''"

text \<open>The class \<open>\w\<close>, which decides the word boundary \<open>\b\<close>.\<close>

definition is_word :: "char \<Rightarrow> bool" where
  "is_word c \<longleftrightarrow> is_alpha c \<or> is_digit c \<or> c = CHR ''_''"

text \<open>\<open>[a-zA-Z_$]\<close> and \<open>[a-zA-Z0-9_$]\<close>, the characters of an unquoted key.\<close>

definition is_ident_start :: "char \<Rightarrow> bool" where
  "is_ident_start c \<longleftrightarrow> is_alpha c \<or> c = CHR ''_'' \<or> c = CHR ''$''"

definition is_ident_char :: "char \<Rightarrow> bool" where
  "is_ident_char c \<longleftrightarrow> is_ident_start c \<or> is_digit c"

text \<open>With the flag \<open>m\<close>, \<open>^\<close> also matches after a line terminator (LF or CR in the
  8-bit range).\<close>

definition is_line_terminator :: "char \<Rightarrow> bool" where
  "is_line_terminator c \<longleftrightarrow> c = CHR 0x0A \<or> c = CHR 0x0D"

subsection \<open>\<open>option\s*=\s*\{\<close> at the start of a text\<close>

text \<open>The result is the matched text and what follows the opening brace.\<close>

definition match_assign_head :: "string \<Rightarrow> (string \<times> string) option" where
  "match_assign_head s =
     (if prefix ''option'' s then
        (let r1 = drop 6 s
         in case dropWhile is_space r1 of
              [] \<Rightarrow> None
            | c # r2 \<Rightarrow>
                if c = CHR ''='' then
                  (case dropWhile is_space r2 of
                     [] \<Rightarrow> None
                   | d # r3 \<Rightarrow>
                       if d = CHR ''{''
                       then Some (''option'' @ takeWhile is_space r1 @ ''='' @
                                  takeWhile is_space r2 @ ''{'', r3)
                       else None)
                else None)
      else None)"

text \<open>\<open>[\s\S]*\}\<close>: any characters, as many as possible, up to a closing brace, that is,
  everything through the last closing brace of the text.\<close>

definition through_last_brace :: "string \<Rightarrow> string option" where
  "through_last_brace s =
     (if CHR ''}'' \<in> set s then Some (rev (dropWhile (\<lambda>c. c \<noteq> CHR ''}'') (rev s))) else None)"

definition match_option_at :: "string \<Rightarrow> string option" where
  "match_option_at s =
     (case match_assign_head s of
        None \<Rightarrow> None
      | Some (h, r) \<Rightarrow> (case through_last_brace r of None \<Rightarrow> None | Some b \<Rightarrow> Some (h @ b)))"

text \<open>\<open>code.match(/option\s*=\s*\{([\s\S]*)\}/)\<close>, element \<open>[0]\<close> of the result: the
  match at the leftmost position that has one; \<open>None\<close> is the \<open>null\<close> of no match.\<close>

fun match_option :: "string \<Rightarrow> string option" where
  "match_option [] = None"
| "match_option (c # cs) =
     (case match_option_at (c # cs) of Some m \<Rightarrow> Some m | None \<Rightarrow> match_option cs)"

subsection \<open>The replacements of the normalizer\<close>

text \<open>\<open>str.replace(/^option\s*=\s*/, '')\<close>.\<close>

definition strip_option_prefix :: "string \<Rightarrow> string" where
  "strip_option_prefix s =
     (if prefix ''option'' s then
        (case dropWhile is_space (drop 6 s) of
           [] \<Rightarrow> s
         | c # r \<Rightarrow> if c = CHR ''='' then dropWhile is_space r else s)
      else s)"

text \<open>\<open>.replace(/;\s*$/, '')\<close>: the leftmost semicolon after which only white space
  follows, and all that follows it, is removed.\<close>

fun strip_semi_end :: "string \<Rightarrow> string" where
  "strip_semi_end [] = []"
| "strip_semi_end (c # cs) =
     (if c = CHR '';'' \<and> list_all is_space cs then [] else c # strip_semi_end cs)"

text \<open>\<open>.replace(/\bW\b/g, r)\<close> for a word \<open>W\<close> that begins and ends with a word
  character, as \<open>None\<close>, \<open>True\<close> and \<open>False\<close> do; the flag \<open>pw\<close> tells whether the
  character before the current position is a word character.\<close>

fun replace_word :: "string \<Rightarrow> string \<Rightarrow> bool \<Rightarrow> string \<Rightarrow> string" where
  "replace_word w r pw [] = []"
| "replace_word w r pw (c # cs) =
     (if \<not> pw \<and> w \<noteq> [] \<and> prefix w (c # cs) \<and>
         (case drop (length w) (c # cs) of [] \<Rightarrow> True | d # _ \<Rightarrow> \<not> is_word d)
      then r @ replace_word w r (is_word (last w)) (drop (length w - 1) cs)
      else c # replace_word w r (is_word c) cs)"

text \<open>\<open>.replace(/,(\s*[}\]])/g, '$1')\<close>: a comma that white space and a closing brace or
  bracket follow is dropped.  A match holds one comma only, so the characters kept from
  it need no second look.\<close>

fun remove_trailing_commas :: "string \<Rightarrow> string" where
  "remove_trailing_commas [] = []"
| "remove_trailing_commas (c # cs) =
     (if c = CHR '','' \<and>
         (case dropWhile is_space cs of [] \<Rightarrow> False | d # _ \<Rightarrow> d = CHR ''}'' \<or> d = CHR '']'')
      then remove_trailing_commas cs
      else c # remove_trailing_commas cs)"

text \<open>\<open>.replace(/'/g, '"')\<close>.\<close>

definition single_to_double :: "string \<Rightarrow> string" where
  "single_to_double s = map (\<lambda>c. if c = CHR 0x27 then CHR 0x22 else c) s"

text \<open>
  \<open>.replace(/([{,]\s*|^\s*)([a-zA-Z_$][a-zA-Z0-9_$]*)\s*:/gm, '$1"$2":')\<close>.
  \<open>match_key\<close> matches \<open>\s*\<close>, the identifier, \<open>\s*\<close> and the colon, and returns the white
  space, the identifier and the rest of the text.  \<open>quote_keys\<close> tries a match at each
  position in turn: after a brace or comma (first alternative), or at the start of a line
  (second alternative; \<open>bol\<close> tells whether the position is one).
\<close>

definition match_key :: "string \<Rightarrow> (string \<times> string \<times> string) option" where
  "match_key s =
     (case dropWhile is_space s of
        [] \<Rightarrow> None
      | c # r \<Rightarrow>
          if is_ident_start c then
            (case dropWhile is_space (dropWhile is_ident_char r) of
               [] \<Rightarrow> None
             | d # rest \<Rightarrow>
                 if d = CHR '':''
                 then Some (takeWhile is_space s, c # takeWhile is_ident_char r, rest)
                 else None)
          else None)"

lemma match_key_shorter: "match_key s = Some (ws, ident, rest) \<Longrightarrow> length rest < length s"
proof -
  assume a: "match_key s = Some (ws, ident, rest)"
  then obtain c r where 1: "dropWhile is_space s = c # r"
    by (auto simp: match_key_def split: list.splits)
  with a obtain d where 2: "dropWhile is_space (dropWhile is_ident_char r) = d # rest"
    by (auto simp: match_key_def split: list.splits if_splits)
  have "length (dropWhile is_space (dropWhile is_ident_char r)) \<le> length r"
    by (meson length_dropWhile_le order_trans)
  with 2 have "length rest < length r" by simp
  moreover have "length (dropWhile is_space s) \<le> length s"
    by (rule length_dropWhile_le)
  with 1 have "length r < length s" by simp
  ultimately show ?thesis by simp
qed

function quote_keys :: "bool \<Rightarrow> string \<Rightarrow> string" where
  "quote_keys bol [] = []"
| "quote_keys bol (c # cs) =
     (if c = CHR ''{'' \<or> c = CHR '','' then
        (case match_key cs of
           Some (ws, ident, rest) \<Rightarrow>
             c # ws @ [CHR 0x22] @ ident @ [CHR 0x22, CHR '':''] @ quote_keys False rest
         | None \<Rightarrow> c # quote_keys (is_line_terminator c) cs)
      else if bol then
        (case match_key (c # cs) of
           Some (ws, ident, rest) \<Rightarrow>
             ws @ [CHR 0x22] @ ident @ [CHR 0x22, CHR '':''] @ quote_keys False rest
         | None \<Rightarrow> c # quote_keys (is_line_terminator c) cs)
      else c # quote_keys (is_line_terminator c) cs)"
  by pat_completeness auto
termination
  by (relation "measure (\<lambda>(bol, s). length s)") (auto dest: match_key_shorter)

section \<open>JavaScript values\<close>

text \<open>
  The stream handlers and the block parsers work on what \<open>JSON.parse\<close> returns, typed
  \<open>any\<close>.  \<open>'n jsval\<close> is such a value; \<open>JUndefined\<close> is what reading an absent property
  gives.  The type \<open>'n\<close> of numbers is left open: the code never computes with a number,
  it only tests one for truth and appends one to a string.  An object is the list of its
  members in the order of the text; a later member with the same key overrides an earlier
  one.
\<close>

datatype 'n jsval =
    JUndefined
  | JNull
  | JBool bool
  | JNum 'n
  | JStr string
  | JArr "'n jsval list"
  | JObj "(string \<times> 'n jsval) list"

text \<open>
  What the code takes from the platform: \<open>JSON.parse\<close> (\<open>None\<close> when it throws a
  \<open>SyntaxError\<close>), the truth value of a number (false for \<open>0\<close> and \<open>NaN\<close>) and the
  conversion of a number to a string.
\<close>

record 'n platform =
  JSON_parse :: "string \<Rightarrow> 'n jsval option"
  number_truthy :: "'n \<Rightarrow> bool"
  number_toString :: "'n \<Rightarrow> string"

text \<open>The truth value of a value in a condition, and the operator \<open>||\<close>.\<close>

fun truthy :: "'n platform \<Rightarrow> 'n jsval \<Rightarrow> bool" where
  "truthy pf JUndefined = False"
| "truthy pf JNull = False"
| "truthy pf (JBool b) = b"
| "truthy pf (JNum n) = number_truthy pf n"
| "truthy pf (JStr s) = (s \<noteq> [])"
| "truthy pf (JArr xs) = True"
| "truthy pf (JObj kvs) = True"

definition or_else :: "'n platform \<Rightarrow> 'n jsval \<Rightarrow> 'n jsval \<Rightarrow> 'n jsval" where
  "or_else pf a b = (if truthy pf a then a else b)"

text \<open>
  \<open>v.k\<close> for a value \<open>v\<close> that is neither \<open>null\<close> nor \<open>undefined\<close> and a key \<open>k\<close> that
  no prototype defines, which holds of every key the code reads (\<open>type\<close>, \<open>content\<close>,
  \<open>status\<close>, \<open>error\<close>, \<open>suggestions\<close>, \<open>choices\<close>, \<open>delta\<close>, \<open>text\<close>, \<open>message\<close>,
  \<open>reply\<close>, \<open>columns\<close>, \<open>data\<close>): the own property of an object, \<open>undefined\<close> otherwise.
  On \<open>null\<close> the read throws a \<open>TypeError\<close>; the callers below test for it first.
\<close>

fun get_prop :: "'n jsval \<Rightarrow> string \<Rightarrow> 'n jsval" where
  "get_prop (JObj kvs) k = (case map_of (rev kvs) k of Some v \<Rightarrow> v | None \<Rightarrow> JUndefined)"
| "get_prop v k = JUndefined"

text \<open>\<open>v?.k\<close>: \<open>undefined\<close> when \<open>v\<close> is \<open>null\<close> or \<open>undefined\<close>.\<close>

definition opt_prop :: "'n jsval \<Rightarrow> string \<Rightarrow> 'n jsval" where
  "opt_prop v k = get_prop v k"

text \<open>\<open>v[0]\<close> for a truthy \<open>v\<close>: the first element of an array, the first character of a
  string, the member \<open>"0"\<close> of an object.\<close>

fun index0 :: "'n jsval \<Rightarrow> 'n jsval" where
  "index0 (JArr xs) = (case xs of [] \<Rightarrow> JUndefined | x # _ \<Rightarrow> x)"
| "index0 (JStr s) = (case s of [] \<Rightarrow> JUndefined | c # _ \<Rightarrow> JStr [c])"
| "index0 (JObj kvs) = get_prop (JObj kvs) ''0''"
| "index0 v = JUndefined"

text \<open>
  The conversion to a string that \<open>buffer += v\<close> performs; \<open>None\<close> is the \<open>TypeError\<close> of
  an object whose own member \<open>toString\<close> hides the inherited method (no member of a parsed
  object is callable).  An array is joined with commas, \<open>null\<close> and \<open>undefined\<close> elements
  giving the empty string.
\<close>

fun join_strings :: "string option list \<Rightarrow> string option" where
  "join_strings [] = Some []"
| "join_strings [x] = x"
| "join_strings (x # y # ys) =
     (case x of None \<Rightarrow> None
      | Some a \<Rightarrow> (case join_strings (y # ys) of None \<Rightarrow> None | Some b \<Rightarrow> Some (a @ '','' @ b)))"

fun toString :: "'n platform \<Rightarrow> 'n jsval \<Rightarrow> string option"
  and element_toString :: "'n platform \<Rightarrow> 'n jsval \<Rightarrow> string option" where
  "toString pf JUndefined = Some ''undefined''"
| "toString pf JNull = Some ''null''"
| "toString pf (JBool b) = Some (if b then ''true'' else ''false'')"
| "toString pf (JNum n) = Some (number_toString pf n)"
| "toString pf (JStr s) = Some s"
| "toString pf (JArr xs) = join_strings (map (element_toString pf) xs)"
| "toString pf (JObj kvs) =
     (if ''toString'' \<in> fst ` set kvs then None else Some ''[object Object]'')"
| "element_toString pf JUndefined = Some []"
| "element_toString pf JNull = Some []"
| "element_toString pf (JBool b) = toString pf (JBool b)"
| "element_toString pf (JNum n) = toString pf (JNum n)"
| "element_toString pf (JStr s) = toString pf (JStr s)"
| "element_toString pf (JArr xs) = toString pf (JArr xs)"
| "element_toString pf (JObj kvs) = toString pf (JObj kvs)"

section \<open>A model of \<open>JSON.parse\<close>\<close>

text \<open>
  For the scenarios that name a concrete payload, \<open>json_parse\<close> models the platform's
  parser on 8-bit texts: a tokenizer followed by a pushdown recognizer of the JSON
  grammar.  A number is kept as its token.  An escape \<open>\uXXXX\<close> above \<open>00FF\<close> has no
  character in this model and is refused.
\<close>

datatype token =
    TLBrace | TRBrace | TLBrack | TRBrack | TColon | TComma
  | TString string | TNumber string | TTrue | TFalse | TNull

definition json_space :: "char \<Rightarrow> bool" where
  "json_space c \<longleftrightarrow> c \<in> {CHR 0x20, CHR 0x09, CHR 0x0A, CHR 0x0D}"

text \<open>The number grammar: \<open>-? (0 | [1-9][0-9]*) (. [0-9]+)? ([eE] [+-]? [0-9]+)?\<close>.\<close>

definition number_exp_ok :: "string \<Rightarrow> bool" where
  "number_exp_ok s =
     (case s of
        [] \<Rightarrow> True
      | c # r \<Rightarrow>
          (c = CHR ''e'' \<or> c = CHR ''E'') \<and>
          (let d = (case r of [] \<Rightarrow> [] | x # r' \<Rightarrow> if x = CHR ''+'' \<or> x = CHR ''-'' then r' else r)
           in d \<noteq> [] \<and> list_all is_digit d))"

definition number_frac_ok :: "string \<Rightarrow> bool" where
  "number_frac_ok s =
     (case s of
        [] \<Rightarrow> True
      | c # r \<Rightarrow>
          if c = CHR ''.''
          then takeWhile is_digit r \<noteq> [] \<and> number_exp_ok (dropWhile is_digit r)
          else number_exp_ok s)"

definition number_ok :: "string \<Rightarrow> bool" where
  "number_ok s =
     (let u = (case s of [] \<Rightarrow> [] | c # r \<Rightarrow> if c = CHR ''-'' then r else s)
      in case u of
           [] \<Rightarrow> False
         | c # r \<Rightarrow>
             if c = CHR ''0'' then number_frac_ok r
             else is_digit c \<and> number_frac_ok (dropWhile is_digit r))"

definition classify_word :: "string \<Rightarrow> token option" where
  "classify_word w =
     (if w = ''true'' then Some TTrue
      else if w = ''false'' then Some TFalse
      else if w = ''null'' then Some TNull
      else if number_ok w then Some (TNumber w)
      else None)"

definition is_word_part :: "char \<Rightarrow> bool" where
  "is_word_part c \<longleftrightarrow> is_alpha c \<or> is_digit c \<or> c \<in> {CHR ''-'', CHR ''+'', CHR ''.''}"

definition hex_value :: "char \<Rightarrow> nat option" where
  "hex_value c =
     (if is_digit c then Some (of_char c - 48)
      else if c \<in> set ''abcdef'' then Some (of_char c - 87)
      else if c \<in> set ''ABCDEF'' then Some (of_char c - 55)
      else None)"

definition simple_escape :: "char \<Rightarrow> char option" where
  "simple_escape c =
     (if c = CHR 0x22 \<or> c = CHR 0x5C \<or> c = CHR ''/'' then Some c
      else if c = CHR ''b'' then Some (CHR 0x08)
      else if c = CHR ''f'' then Some (CHR 0x0C)
      else if c = CHR ''n'' then Some (CHR 0x0A)
      else if c = CHR ''r'' then Some (CHR 0x0D)
      else if c = CHR ''t'' then Some (CHR 0x09)
      else None)"

datatype lex_mode =
    LNormal
  | LWord string
  | LString string
  | LEscape string
  | LUnicode string "nat list"

text \<open>The tokenizer reads one character at a time; the tokens found so far are kept in
  reverse.\<close>

fun lex :: "lex_mode \<Rightarrow> token list \<Rightarrow> string \<Rightarrow> token list option" where
  "lex LNormal acc [] = Some (rev acc)"
| "lex (LWord w) acc [] =
     (case classify_word w of None \<Rightarrow> None | Some t \<Rightarrow> Some (rev (t # acc)))"
| "lex (LString s) acc [] = None"
| "lex (LEscape s) acc [] = None"
| "lex (LUnicode s ds) acc [] = None"
| "lex LNormal acc (c # cs) =
     (if json_space c then lex LNormal acc cs
      else if c = CHR ''{'' then lex LNormal (TLBrace # acc) cs
      else if c = CHR ''}'' then lex LNormal (TRBrace # acc) cs
      else if c = CHR ''['' then lex LNormal (TLBrack # acc) cs
      else if c = CHR '']'' then lex LNormal (TRBrack # acc) cs
      else if c = CHR '':'' then lex LNormal (TColon # acc) cs
      else if c = CHR '','' then lex LNormal (TComma # acc) cs
      else if c = CHR 0x22 then lex (LString []) acc cs
      else if is_word_part c then lex (LWord [c]) acc cs
      else None)"
| "lex (LWord w) acc (c # cs) =
     (if is_word_part c then lex (LWord (w @ [c])) acc cs
      else (case classify_word w of
              None \<Rightarrow> None
            | Some t \<Rightarrow>
                if json_space c then lex LNormal (t # acc) cs
                else if c = CHR ''}'' then lex LNormal (TRBrace # t # acc) cs
                else if c = CHR '']'' then lex LNormal (TRBrack # t # acc) cs
                else if c = CHR '':'' then lex LNormal (TColon # t # acc) cs
                else if c = CHR '','' then lex LNormal (TComma # t # acc) cs
                else None))"
| "lex (LString s) acc (c # cs) =
     (if c = CHR 0x22 then lex LNormal (TString s # acc) cs
      else if c = CHR 0x5C then lex (LEscape s) acc cs
      else if (of_char c :: nat) < 32 then None
      else lex (LString (s @ [c])) acc cs)"
| "lex (LEscape s) acc (c # cs) =
     (if c = CHR ''u'' then lex (LUnicode s []) acc cs
      else (case simple_escape c of
              None \<Rightarrow> None
            | Some e \<Rightarrow> lex (LString (s @ [e])) acc cs))"
| "lex (LUnicode s ds) acc (c # cs) =
     (case hex_value c of
        None \<Rightarrow> None
      | Some d \<Rightarrow>
          if length ds < 3 then lex (LUnicode s (ds @ [d])) acc cs
          else (let n = foldl (\<lambda>a x. 16 * a + x) 0 (ds @ [d])
                in if n < 256 then lex (LString (s @ [char_of n])) acc cs else None))"

text \<open>The recognizer keeps the unfinished arrays and objects on a stack.\<close>

datatype 'n frame =
    FArr "'n jsval list"
  | FObj "(string \<times> 'n jsval) list" string

datatype 'n pstate =
    PValue
  | PValueOrEnd
  | PKeyOrEnd
  | PKey
  | PColon string
  | PArrNext
  | PObjNext
  | PDone "'n jsval"
  | PFail

text \<open>A finished value goes into the innermost unfinished array or object, or is the
  result.\<close>

fun finish :: "'n jsval \<Rightarrow> 'n frame list \<Rightarrow> 'n pstate \<times> 'n frame list" where
  "finish v [] = (PDone v, [])"
| "finish v (FArr es # st) = (PArrNext, FArr (es @ [v]) # st)"
| "finish v (FObj kvs k # st) = (PObjNext, FObj (kvs @ [(k, v)]) [] # st)"

fun scalar :: "token \<Rightarrow> string jsval option" where
  "scalar (TString s) = Some (JStr s)"
| "scalar (TNumber w) = Some (JNum w)"
| "scalar TTrue = Some (JBool True)"
| "scalar TFalse = Some (JBool False)"
| "scalar TNull = Some JNull"
| "scalar t = None"

definition start_value :: "string frame list \<Rightarrow> token \<Rightarrow> string pstate \<times> string frame list" where
  "start_value st t =
     (if t = TLBrack then (PValueOrEnd, FArr [] # st)
      else if t = TLBrace then (PKeyOrEnd, FObj [] [] # st)
      else (case scalar t of Some v \<Rightarrow> finish v st | None \<Rightarrow> (PFail, st)))"

definition start_key :: "string frame list \<Rightarrow> token \<Rightarrow> string pstate \<times> string frame list" where
  "start_key st t = (case t of TString k \<Rightarrow> (PColon k, st) | _ \<Rightarrow> (PFail, st))"

fun pstep :: "string pstate \<Rightarrow> string frame list \<Rightarrow> token \<Rightarrow> string pstate \<times> string frame list" where
  "pstep PValue st t = start_value st t"
| "pstep PValueOrEnd st t =
     (if t = TRBrack then
        (case st of FArr es # st' \<Rightarrow> finish (JArr es) st' | _ \<Rightarrow> (PFail, st))
      else start_value st t)"
| "pstep PKeyOrEnd st t =
     (if t = TRBrace then
        (case st of FObj kvs k # st' \<Rightarrow> finish (JObj kvs) st' | _ \<Rightarrow> (PFail, st))
      else start_key st t)"
| "pstep PKey st t = start_key st t"
| "pstep (PColon k) st t =
     (if t = TColon then
        (case st of FObj kvs _ # st' \<Rightarrow> (PValue, FObj kvs k # st') | _ \<Rightarrow> (PFail, st))
      else (PFail, st))"
| "pstep PArrNext st t =
     (if t = TComma then (PValue, st)
      else if t = TRBrack then
        (case st of FArr es # st' \<Rightarrow> finish (JArr es) st' | _ \<Rightarrow> (PFail, st))
      else (PFail, st))"
| "pstep PObjNext st t =
     (if t = TComma then (PKey, st)
      else if t = TRBrace then
        (case st of FObj kvs k # st' \<Rightarrow> finish (JObj kvs) st' | _ \<Rightarrow> (PFail, st))
      else (PFail, st))"
| "pstep (PDone v) st t = (PFail, st)"
| "pstep PFail st t = (PFail, st)"

fun parse_tokens :: "string pstate \<Rightarrow> string frame list \<Rightarrow> token list \<Rightarrow> string jsval option" where
  "parse_tokens ps st [] = (case ps of PDone v \<Rightarrow> Some v | _ \<Rightarrow> None)"
| "parse_tokens ps st (t # ts) = (case pstep ps st t of (ps', st') \<Rightarrow> parse_tokens ps' st' ts)"

definition json_parse :: "string \<Rightarrow> string jsval option" where
  "json_parse s = (case lex LNormal [] s of None \<Rightarrow> None | Some ts \<Rightarrow> parse_tokens PValue [] ts)"

text \<open>The platform with this parser.  The token of a number is true unless all the digits
  of its mantissa are zeros, and stands for its own text.\<close>

definition model_platform :: "string platform" where
  "model_platform =
     \<lparr>JSON_parse = json_parse,
      number_truthy = (\<lambda>w. \<exists>c \<in> set (takeWhile (\<lambda>c. c \<noteq> CHR ''e'' \<and> c \<noteq> CHR ''E'') w).
                             is_digit c \<and> c \<noteq> CHR ''0''),
      number_toString = (\<lambda>w. w)\<rparr>"

section \<open>The block parsers of the table and chart components\<close>

subsection \<open>The normalizer: \<open>parseTableOption\<close> and \<open>parseChartOption\<close>\<close>

text \<open>
  Both functions have the same body.  Whatever is thrown inside is caught and \<open>null\<close>
  is returned; the only operation that can throw is \<open>JSON.parse\<close>.
\<close>

definition parseTableOption :: "'n platform \<Rightarrow> string \<Rightarrow> 'n jsval" where
  "parseTableOption pf str =
     (let cleanedStr = strip_semi_end (strip_option_prefix str)
      in if \<not> isCompleteJSON cleanedStr then JNull
         else
           (let cleanedStr = replace_word ''None'' ''null'' False cleanedStr;
                cleanedStr = replace_word ''True'' ''true'' False cleanedStr;
                cleanedStr = replace_word ''False'' ''false'' False cleanedStr;
                cleanedStr = remove_trailing_commas cleanedStr;
                cleanedStr = single_to_double cleanedStr;
                cleanedStr = quote_keys True cleanedStr
            in case JSON_parse pf cleanedStr of None \<Rightarrow> JNull | Some v \<Rightarrow> v))"

definition parseChartOption :: "'n platform \<Rightarrow> string \<Rightarrow> 'n jsval" where
  "parseChartOption pf str =
     (let cleanedStr = strip_semi_end (strip_option_prefix str)
      in if \<not> isCompleteJSON cleanedStr then JNull
         else
           (let cleanedStr = replace_word ''None'' ''null'' False cleanedStr;
                cleanedStr = replace_word ''True'' ''true'' False cleanedStr;
                cleanedStr = replace_word ''False'' ''false'' False cleanedStr;
                cleanedStr = remove_trailing_commas cleanedStr;
                cleanedStr = single_to_double cleanedStr;
                cleanedStr = quote_keys True cleanedStr
            in case JSON_parse pf cleanedStr of None \<Rightarrow> JNull | Some v \<Rightarrow> v))"

subsection \<open>\<open>parseChartData\<close>\<close>

definition parseChartData :: "'n platform \<Rightarrow> string \<Rightarrow> 'n jsval" where
  "parseChartData pf code =
     (case match_option code of
        Some fullOptionStr \<Rightarrow>
          (let config = parseChartOption pf fullOptionStr
           in if truthy pf config \<and> truthy pf (get_prop config ''type'') then config
              else JNull)
      | None \<Rightarrow> JNull)"

subsection \<open>\<open>parseTableData\<close>\<close>

text \<open>\<open>s.split(sep)\<close> for a separator of one character.\<close>

fun split_on :: "char \<Rightarrow> string \<Rightarrow> string list" where
  "split_on sep [] = [[]]"
| "split_on sep (c # cs) =
     (if c = sep then [] # split_on sep cs
      else (case split_on sep cs of [] \<Rightarrow> [[c]] | x # xs \<Rightarrow> (c # x) # xs))"

text \<open>
  \<open>row[header] = v\<close> on an object made by an object literal: the member is replaced or
  added, except that an assignment to \<open>__proto__\<close> reaches the inherited setter, which
  ignores a string.
\<close>

fun assign_member :: "string \<Rightarrow> 'n jsval \<Rightarrow> (string \<times> 'n jsval) list \<Rightarrow> (string \<times> 'n jsval) list" where
  "assign_member k v [] = [(k, v)]"
| "assign_member k v ((k', v') # kvs) =
     (if k' = k then (k, v) # kvs else (k', v') # assign_member k v kvs)"

definition set_member :: "string \<Rightarrow> 'n jsval \<Rightarrow> (string \<times> 'n jsval) list \<Rightarrow> (string \<times> 'n jsval) list" where
  "set_member k v kvs = (if k = ''__proto__'' then kvs else assign_member k v kvs)"

text \<open>The first stage: the configuration object of an \<open>option = { ... }\<close> assignment that
  has truthy \<open>columns\<close> and \<open>data\<close>.\<close>

definition table_option_config :: "'n platform \<Rightarrow> string \<Rightarrow> 'n jsval option" where
  "table_option_config pf code =
     (case match_option code of
        Some fullOptionStr \<Rightarrow>
          (let config = parseTableOption pf fullOptionStr
           in if truthy pf config \<and> truthy pf (get_prop config ''columns'') \<and>
                 truthy pf (get_prop config ''data'')
              then Some config else None)
      | None \<Rightarrow> None)"

text \<open>The second stage, the Markdown table.  \<open>table_lines\<close> is the local \<open>lines\<close>,
  \<open>table_cells\<close> the trimmed cells of a line (\<open>headers\<close> for the first line, \<open>values\<close> for
  a data line), \<open>table_row\<close> the object that the \<open>forEach\<close> over the headers fills.\<close>

definition table_lines :: "string \<Rightarrow> string list" where
  "table_lines code = filter (\<lambda>line. trim line \<noteq> []) (split_on (CHR 0x0A) (trim code))"

definition table_cells :: "string \<Rightarrow> string list" where
  "table_cells line = filter (\<lambda>v. v \<noteq> []) (map trim (split_on (CHR ''|'') line))"

definition table_row :: "string list \<Rightarrow> string list \<Rightarrow> 'n jsval" where
  "table_row headers values =
     JObj (foldl (\<lambda>row (header, index).
                    set_member header (JStr (if index < length values then values ! index else [])) row)
                 [] (zip headers [0..<length headers]))"

definition parseTableData :: "'n platform \<Rightarrow> string \<Rightarrow> 'n jsval" where
  "parseTableData pf code =
     (case table_option_config pf code of
        Some config \<Rightarrow> config
      | None \<Rightarrow>
          (let lines = table_lines code
           in if length lines < 2 then JNull
              else if CHR ''|'' \<in> set (hd lines) then
                (let headers = table_cells (hd lines);
                     dataLines = drop 2 lines;
                     data = map (\<lambda>line. table_row headers (table_cells line)) dataLines
                 in if length data > 0 then JArr data else JNull)
              else JNull))"



section \<open>The stream handlers\<close>

text \<open>
  Two components consume the stream of server-sent events: \<open>callApiSSE\<close> of the chat
  widget and \<open>sendMessage\<close> of the application.  Each pushes an empty assistant message,
  then watches the list of received records and applies every new record to that message.
  The state of a handler is the message it updates and the two local variables of the
  closure, \<open>contentBuffer\<close> and \<open>processedCount\<close>.  Of the message, the fields that the
  handlers write are kept (\<open>role\<close> and \<open>timestamp\<close> never change).  The fields are typed
  \<open>string\<close> in the source but receive whatever the payload holds, so \<open>content\<close> is a
  value; \<open>None\<close> is an optional field that was never assigned.
\<close>

datatype ThinkingStatus = Start | Thinking | End | Error

record 'n message =
  content :: "'n jsval"
  thinkingStatus :: ThinkingStatus
  isStreaming :: bool
  statusContent :: "'n jsval option"
  suggestions :: "'n jsval option"

record 'n stream_state =
  message :: "'n message"
  contentBuffer :: string
  processedCount :: nat

text \<open>The state when the watcher is installed.\<close>

definition initial_state :: "'n stream_state" where
  "initial_state =
     \<lparr>message = \<lparr>content = JStr [], thinkingStatus = Start, isStreaming = True,
                  statusContent = None, suggestions = None\<rparr>,
      contentBuffer = [], processedCount = 0\<rparr>"

text \<open>The three literals of the source that are not ASCII, each by the bytes of its UTF-8
  encoding: the text shown when the stream ends with nothing received, the default status
  text and the default error text.\<close>

definition query_done_text :: string where
  "query_done_text = map char_of
     [0xE6, 0x9F, 0xA5, 0xE8, 0xA9, 0xA2, 0xE5, 0xAE, 0x8C, 0xE6, 0x88, 0x90 :: nat]"

definition processing_text :: string where
  "processing_text = map char_of
     [0xE6, 0xAD, 0xA3, 0xE5, 0x9C, 0xA8, 0xE8, 0x99, 0x95, 0xE7, 0x90, 0x86, 0xE4, 0xB8, 0xAD,
      0x2E, 0x2E, 0x2E :: nat]"

definition error_text :: string where
  "error_text = map char_of
     [0xE7, 0x99, 0xBC, 0xE7, 0x94, 0x9F, 0xE9, 0x8C, 0xAF, 0xE8, 0xAA, 0xA4 :: nat]"

subsection \<open>What both handlers share\<close>

text \<open>The branch of the end marker \<open>[DONE]\<close>.\<close>

definition stream_done :: "'n stream_state \<Rightarrow> 'n stream_state" where
  "stream_done st =
     st\<lparr>message := (message st)
          \<lparr>content := JStr (if contentBuffer st \<noteq> [] then contentBuffer st else query_done_text),
           thinkingStatus := End,
           isStreaming := False\<rparr>\<rparr>"

text \<open>The branch of \<open>type === 'done'\<close>.\<close>

definition mark_done :: "'n stream_state \<Rightarrow> 'n stream_state" where
  "mark_done st = st\<lparr>message := (message st)\<lparr>thinkingStatus := End, isStreaming := False\<rparr>\<rparr>"

text \<open>\<open>contentBuffer += s\<close>, the buffer copied to the message, and the step from
  \<open>start\<close> to \<open>thinking\<close>.\<close>

definition append_content :: "string \<Rightarrow> 'n stream_state \<Rightarrow> 'n stream_state" where
  "append_content s st =
     (let buffer = contentBuffer st @ s
      in st\<lparr>contentBuffer := buffer,
            message := (message st)
              \<lparr>content := JStr buffer,
               thinkingStatus :=
                 (if thinkingStatus (message st) = Start then Thinking
                  else thinkingStatus (message st))\<rparr>\<rparr>)"

text \<open>The local \<open>statusType\<close>, \<open>statusContent\<close> and \<open>thinkingStatus\<close> of the status
  branch.\<close>

definition status_type :: "'n platform \<Rightarrow> 'n jsval \<Rightarrow> 'n jsval" where
  "status_type pf json = or_else pf (opt_prop (get_prop json ''status'') ''type'') (JStr ''working'')"

definition status_content :: "'n platform \<Rightarrow> 'n jsval \<Rightarrow> 'n jsval" where
  "status_content pf json =
     or_else pf (opt_prop (get_prop json ''status'') ''content'')
       (or_else pf (get_prop json ''content'') (JStr processing_text))"

definition status_thinking :: "'n jsval \<Rightarrow> ThinkingStatus" where
  "status_thinking statusType =
     (if statusType = JStr ''idle'' then Start
      else if statusType = JStr ''working'' then Thinking
      else if statusType = JStr ''error'' then Error
      else if statusType = JStr ''success'' then End
      else Thinking)"

subsection \<open>\<open>callApiSSE\<close> (chat widget)\<close>

text \<open>The \<open>catch\<close> block: the record is appended as text.\<close>

definition callApiSSE_catch :: "string \<Rightarrow> 'n stream_state \<Rightarrow> 'n stream_state" where
  "callApiSSE_catch chunk st =
     (if chunk \<noteq> [] then
        (let buffer = contentBuffer st @ chunk
         in st\<lparr>contentBuffer := buffer, message := (message st)\<lparr>content := JStr buffer\<rparr>\<rparr>)
      else st)"

text \<open>The local \<open>content\<close> of the last branch, the fields of older response formats.\<close>

definition legacy_content :: "'n platform \<Rightarrow> 'n jsval \<Rightarrow> 'n jsval" where
  "legacy_content pf json =
     (if truthy pf (get_prop json ''choices'') \<and>
         truthy pf (opt_prop (opt_prop (index0 (get_prop json ''choices'')) ''delta'') ''content'')
        then get_prop (get_prop (index0 (get_prop json ''choices'')) ''delta'') ''content''
      else if truthy pf (get_prop json ''content'') \<and> \<not> truthy pf (get_prop json ''type'')
        then get_prop json ''content''
      else if truthy pf (opt_prop (get_prop json ''delta'') ''content'')
        then get_prop (get_prop json ''delta'') ''content''
      else if truthy pf (get_prop json ''text'') then get_prop json ''text''
      else if truthy pf (get_prop json ''message'') then get_prop json ''message''
      else if truthy pf (get_prop json ''reply'') then get_prop json ''reply''
      else JStr [])"

text \<open>
  The body of the \<open>try\<close> block for a parsed record.  Reading \<open>json.type\<close> of \<open>null\<close> and
  appending an object that cannot be converted to a string throw a \<open>TypeError\<close> before
  anything is written; the \<open>catch\<close> block then runs.
\<close>

definition callApiSSE_json :: "'n platform \<Rightarrow> string \<Rightarrow> 'n jsval \<Rightarrow> 'n stream_state \<Rightarrow> 'n stream_state" where
  "callApiSSE_json pf chunk json st =
     (if json = JNull then callApiSSE_catch chunk st
      else if get_prop json ''type'' = JStr ''explanation'' \<and> truthy pf (get_prop json ''content'') then
        (case toString pf (get_prop json ''content'') of
           None \<Rightarrow> callApiSSE_catch chunk st
         | Some s \<Rightarrow> append_content s st)
      else if get_prop json ''type'' = JStr ''status'' then
        st\<lparr>message := (message st)
             \<lparr>content := status_content pf json,
              thinkingStatus := status_thinking (status_type pf json)\<rparr>\<rparr>
      else if get_prop json ''type'' = JStr ''error'' then
        st\<lparr>message := (message st)
             \<lparr>content := or_else pf (get_prop json ''error'') (JStr error_text),
              thinkingStatus := Error\<rparr>\<rparr>
      else if get_prop json ''type'' = JStr ''done'' then mark_done st
      else
        (let content = legacy_content pf json
         in if truthy pf content then
              (case toString pf content of
                 None \<Rightarrow> callApiSSE_catch chunk st
               | Some s \<Rightarrow> append_content s st)
            else st))"

text \<open>One round of the loop.  The record's \<open>data\<close> may be missing (\<open>None\<close>): then nothing
  equals the end marker, \<open>JSON.parse(undefined)\<close> throws and the \<open>catch\<close> block finds no
  text.\<close>

definition callApiSSE_chunk :: "'n platform \<Rightarrow> string option \<Rightarrow> 'n stream_state \<Rightarrow> 'n stream_state" where
  "callApiSSE_chunk pf data st =
     (case data of
        None \<Rightarrow> st
      | Some chunk \<Rightarrow>
          if trim chunk = ''[DONE]'' then stream_done st
          else (case JSON_parse pf chunk of
                  None \<Rightarrow> callApiSSE_catch chunk st
                | Some json \<Rightarrow> callApiSSE_json pf chunk json st))"

text \<open>The watcher: the records from \<open>processedCount\<close> on are applied in order, then the
  count is moved to the end of the list.\<close>

definition callApiSSE_watch :: "'n platform \<Rightarrow> string option list \<Rightarrow> 'n stream_state \<Rightarrow> 'n stream_state" where
  "callApiSSE_watch pf newData st =
     (if newData = [] then st
      else (foldl (\<lambda>s data. callApiSSE_chunk pf data s) st (drop (processedCount st) newData))
             \<lparr>processedCount := length newData\<rparr>)"

subsection \<open>\<open>sendMessage\<close> (application)\<close>

text \<open>
  Here the record is read with \<open>item?.data || item\<close>: when \<open>data\<close> is missing or empty the
  record itself, an object, becomes the chunk, and \<open>chunk?.trim()\<close> throws a \<open>TypeError\<close>
  outside every \<open>try\<close> block.  The exception leaves the watcher; what was written before
  stays written and \<open>processedCount\<close> is not moved.
\<close>

datatype js_error = TypeError

definition sendMessage_catch :: "string \<Rightarrow> 'n stream_state \<Rightarrow> 'n stream_state" where
  "sendMessage_catch chunk st = (if chunk \<noteq> [] then append_content chunk st else st)"

definition sendMessage_json :: "'n platform \<Rightarrow> string \<Rightarrow> 'n jsval \<Rightarrow> 'n stream_state \<Rightarrow> 'n stream_state" where
  "sendMessage_json pf chunk json st =
     (if json = JNull then sendMessage_catch chunk st
      else if get_prop json ''type'' = JStr ''explanation'' \<and> truthy pf (get_prop json ''content'') then
        (case toString pf (get_prop json ''content'') of
           None \<Rightarrow> sendMessage_catch chunk st
         | Some s \<Rightarrow> append_content s st)
      else if get_prop json ''type'' = JStr ''status'' then
        st\<lparr>message := (message st)
             \<lparr>content := status_content pf json,
              statusContent := Some (status_content pf json),
              thinkingStatus := status_thinking (status_type pf json)\<rparr>\<rparr>
      else if get_prop json ''type'' = JStr ''error'' then
        (let errorContent = or_else pf (get_prop json ''error'') (JStr error_text)
         in st\<lparr>message := (message st)
                \<lparr>content := errorContent,
                 statusContent := Some errorContent,
                 thinkingStatus := Error\<rparr>\<rparr>)
      else if get_prop json ''type'' = JStr ''suggestions'' then
        (if truthy pf (get_prop json ''suggestions'')
         then st\<lparr>message := (message st)\<lparr>suggestions := Some (get_prop json ''suggestions'')\<rparr>\<rparr>
         else st)
      else if get_prop json ''type'' = JStr ''done'' then mark_done st
      else st)"

definition sendMessage_chunk :: "'n platform \<Rightarrow> string option \<Rightarrow> 'n stream_state \<Rightarrow> js_error + 'n stream_state" where
  "sendMessage_chunk pf data st =
     (case data of
        None \<Rightarrow> Inl TypeError
      | Some chunk \<Rightarrow>
          if chunk = [] then Inl TypeError
          else if trim chunk = ''[DONE]'' then Inr (stream_done st)
          else (case JSON_parse pf chunk of
                  None \<Rightarrow> Inr (sendMessage_catch chunk st)
                | Some json \<Rightarrow> Inr (sendMessage_json pf chunk json st)))"

text \<open>The loop of the watcher; the result is the state reached and the exception that
  ended the loop, if any.\<close>

fun sendMessage_loop :: "'n platform \<Rightarrow> string option list \<Rightarrow> 'n stream_state \<Rightarrow> 'n stream_state \<times> js_error option" where
  "sendMessage_loop pf [] st = (st, None)"
| "sendMessage_loop pf (data # rest) st =
     (case sendMessage_chunk pf data st of
        Inl e \<Rightarrow> (st, Some e)
      | Inr st' \<Rightarrow> sendMessage_loop pf rest st')"

definition sendMessage_watch :: "'n platform \<Rightarrow> string option list \<Rightarrow> 'n stream_state \<Rightarrow> 'n stream_state \<times> js_error option" where
  "sendMessage_watch pf dataArray st =
     (if dataArray = [] then (st, None)
      else (case sendMessage_loop pf (drop (processedCount st) dataArray) st of
              (st', None) \<Rightarrow> (st'\<lparr>processedCount := length dataArray\<rparr>, None)
            | (st', Some e) \<Rightarrow> (st', Some e)))"

section \<open>The scanner's contract\<close>

text \<open>
  The contract speaks of a brace-depth counter that is advanced over the whole text, one
  character at a time, with a flag for the inside of a string literal, the quote that
  opened it, and an escape flag that a backslash sets and the next character consumes.
  \<open>scan_step\<close> is that counter; \<open>depth t n\<close> is its value after the first \<open>n\<close>
  characters of \<open>t\<close>, and \<open>first_return t\<close> the first \<open>n \<ge> 1\<close> at which it is \<open>0\<close>.
\<close>

definition scan_step :: "scan_state \<Rightarrow> char \<Rightarrow> scan_state" where
  "scan_step st c =
     (if escapeNext st then st\<lparr>escapeNext := False\<rparr>
      else if c = CHR 0x5C then st\<lparr>escapeNext := True\<rparr>
      else if c = CHR 0x22 \<or> c = CHR 0x27 then
        (if \<not> inString st then st\<lparr>inString := True, stringChar := Some c\<rparr>
         else if stringChar st = Some c then st\<lparr>inString := False, stringChar := None\<rparr>
         else st)
      else if inString st then st
      else if c = CHR ''{'' then st\<lparr>braceCount := braceCount st + 1\<rparr>
      else if c = CHR ''}'' then st\<lparr>braceCount := braceCount st - 1\<rparr>
      else st)"

definition depth :: "string \<Rightarrow> nat \<Rightarrow> int" where
  "depth t n = braceCount (foldl scan_step scan_init (take n t))"

definition first_return :: "string \<Rightarrow> nat option" where
  "first_return t = find (\<lambda>n. depth t n = 0) [1..<Suc (length t)]"

definition only_space_or_semi :: "string \<Rightarrow> bool" where
  "only_space_or_semi r = list_all (\<lambda>c. is_space c \<or> c = CHR '';'') r"

definition at_most_one_semi :: "string \<Rightarrow> bool" where
  "at_most_one_semi r \<longleftrightarrow> trim r = [] \<or> trim r = '';''"

definition spec_isComplete :: "(string \<Rightarrow> bool) \<Rightarrow> string \<Rightarrow> bool" where
  "spec_isComplete tail_ok text =
     (let t = trim text
      in prefix ''{'' t \<and> (case first_return t of None \<Rightarrow> False | Some n \<Rightarrow> tail_ok (drop n t)))"

definition balanced_literal :: "string \<Rightarrow> bool" where
  "balanced_literal s \<longleftrightarrow> prefix ''{'' s \<and> first_return s = Some (length s)"

definition returns_in :: "scan_state \<Rightarrow> string \<Rightarrow> nat option" where
  "returns_in st cs = find (\<lambda>n. braceCount (foldl scan_step st (take n cs)) = 0) [1..<Suc (length cs)]"

text \<open>
  A grammar of object literals that does not mention the counter.  The body of a string
  literal opened by the quote \<open>q\<close> is made of characters other than \<open>q\<close> and the
  backslash, and of backslashes each followed by any one character.  The body of an
  object is made of plain characters, string literals in single or double quotes, and
  nested objects in braces.
\<close>

inductive string_body :: "char \<Rightarrow> string \<Rightarrow> bool" for q :: char where
  sb_end: "string_body q []"
| sb_char: "c \<noteq> q \<Longrightarrow> c \<noteq> CHR 0x5C \<Longrightarrow> string_body q t \<Longrightarrow> string_body q (c # t)"
| sb_escape: "string_body q t \<Longrightarrow> string_body q (CHR 0x5C # c # t)"

inductive literal_body :: "string \<Rightarrow> bool" where
  lb_end: "literal_body []"
| lb_char: "c \<notin> {CHR ''{'', CHR ''}'', CHR 0x22, CHR 0x27, CHR 0x5C} \<Longrightarrow> literal_body s \<Longrightarrow>
            literal_body (c # s)"
| lb_string: "q = CHR 0x22 \<or> q = CHR 0x27 \<Longrightarrow> string_body q t \<Longrightarrow> literal_body s \<Longrightarrow>
              literal_body (q # t @ q # s)"
| lb_nested: "literal_body b \<Longrightarrow> literal_body s \<Longrightarrow> literal_body (CHR ''{'' # b @ CHR ''}'' # s)"

definition object_literal :: "string \<Rightarrow> bool" where
  "object_literal s \<longleftrightarrow> (\<exists>b. literal_body b \<and> s = CHR ''{'' # b @ ''}'')"

text \<open>\<open>depths_ge d st xs\<close>: started in \<open>st\<close>, the counter stays at \<open>d\<close> or above before,
  between and after the characters of \<open>xs\<close>.\<close>

fun depths_ge :: "int \<Rightarrow> scan_state \<Rightarrow> string \<Rightarrow> bool" where
  "depths_ge d st [] = (d \<le> braceCount st)"
| "depths_ge d st (c # cs) = (d \<le> braceCount st \<and> depths_ge d (scan_step st c) cs)"

section \<open>The block extractor's contract\<close>

text \<open>
  \<open>first_assign text\<close> is the first position of the text at which the words \<open>option\<close>,
  \<open>=\<close> and an opening brace stand, separated by optional white space.  The specification
  has the extractor return the text from there to its end.
\<close>

definition first_assign :: "string \<Rightarrow> nat option" where
  "first_assign text = find (\<lambda>k. match_assign_head (drop k text) \<noteq> None) [0..<length text]"

definition spec_extractAssignment :: "string \<Rightarrow> string option" where
  "spec_extractAssignment text =
     (case first_assign text of None \<Rightarrow> None | Some k \<Rightarrow> Some (drop k text))"

section \<open>Auxiliary notions for the Markdown table\<close>


section \<open>The contract of the stream handlers\<close>

text \<open>
  The display state is terminal once it is \<open>end\<close> or \<open>error\<close>.  A record reverts a
  terminal state when it is a status record whose status type does not map to \<open>end\<close> or
  \<open>error\<close>.
\<close>

definition terminal :: "ThinkingStatus \<Rightarrow> bool" where
  "terminal ts \<longleftrightarrow> ts = End \<or> ts = Error"

definition reverting_status :: "'n platform \<Rightarrow> string option \<Rightarrow> bool" where
  "reverting_status pf data =
     (case data of
        None \<Rightarrow> False
      | Some chunk \<Rightarrow>
          trim chunk \<noteq> ''[DONE]'' \<and>
          (case JSON_parse pf chunk of
             None \<Rightarrow> False
           | Some json \<Rightarrow>
               get_prop json ''type'' = JStr ''status'' \<and>
               \<not> terminal (status_thinking (status_type pf json))))"

text \<open>
  The fields of the older response formats in their order of priority, as the code reads
  them (\<open>content\<close> only when the record has no truthy \<open>type\<close>) and as the specification
  lists them.
\<close>

definition legacy_candidates :: "'n platform \<Rightarrow> 'n jsval \<Rightarrow> 'n jsval list" where
  "legacy_candidates pf json =
     [if truthy pf (get_prop json ''choices'')
        then get_prop (get_prop (index0 (get_prop json ''choices'')) ''delta'') ''content''
        else JUndefined,
      if truthy pf (get_prop json ''type'') then JUndefined else get_prop json ''content'',
      get_prop (get_prop json ''delta'') ''content'',
      get_prop json ''text'',
      get_prop json ''message'',
      get_prop json ''reply'']"

definition claimed_candidates :: "'n platform \<Rightarrow> 'n jsval \<Rightarrow> 'n jsval list" where
  "claimed_candidates pf json =
     [if truthy pf (get_prop json ''choices'')
        then get_prop (get_prop (index0 (get_prop json ''choices'')) ''delta'') ''content''
        else JUndefined,
      get_prop json ''content'',
      get_prop (get_prop json ''delta'') ''content'',
      get_prop json ''text'',
      get_prop json ''message'',
      get_prop json ''reply'']"

text \<open>The status text as the specification words it: the nested content or else the
  default text.\<close>

definition claimed_status_text :: "'n platform \<Rightarrow> 'n jsval \<Rightarrow> 'n jsval" where
  "claimed_status_text pf json =
     (if truthy pf (get_prop (get_prop json ''status'') ''content'')
      then get_prop (get_prop json ''status'') ''content''
      else JStr processing_text)"

section \<open>The scanner meets its contract\<close>

lemma find_map_shift: "find P (map f xs) = map_option f (find (\<lambda>x. P (f x)) xs)"
  by (induction xs) auto

lemma find_upt_shift:
  "find P [Suc 0..<Suc (Suc n)] =
     (if P (Suc 0) then Some (Suc 0) else map_option Suc (find (\<lambda>k. P (Suc k)) [Suc 0..<Suc n]))"
proof -
  have "[Suc 0..<Suc (Suc n)] = Suc 0 # map Suc [Suc 0..<Suc n]"
    by (simp only: map_Suc_upt) (simp add: upt_conv_Cons del: upt_Suc)
  then show ?thesis by (simp only: find_map_shift find.simps)
qed

lemma returns_in_Nil: "returns_in st [] = None"
  by (simp add: returns_in_def)

lemma returns_in_Cons:
  "returns_in st (c # cs) =
     (if braceCount (scan_step st c) = 0 then Some 1
      else map_option Suc (returns_in (scan_step st c) cs))"
  unfolding returns_in_def by (simp add: find_upt_shift del: upt_Suc)

lemma scan_loop_step:
  assumes "1 \<le> braceCount st"
  shows "scan_loop (c # cs) st =
     (if braceCount (scan_step st c) = 0 then replace_opt_semi_end (trim cs) = []
      else scan_loop cs (scan_step st c))"
  using assms by (auto simp: scan_step_def)

lemma scan_step_depth: "1 \<le> braceCount st \<Longrightarrow> braceCount (scan_step st c) \<noteq> 0 \<Longrightarrow> 1 \<le> braceCount (scan_step st c)"
  by (auto simp: scan_step_def split: if_splits)

lemma scan_loop_returns:
  "1 \<le> braceCount st \<Longrightarrow>
   scan_loop cs st = (case returns_in st cs of None \<Rightarrow> False | Some n \<Rightarrow> replace_opt_semi_end (trim (drop n cs)) = [])"
proof (induction cs arbitrary: st)
  case Nil
  then show ?case by (simp add: returns_in_Nil)
next
  case (Cons c cs)
  show ?case
  proof (cases "braceCount (scan_step st c) = 0")
    case True
    then show ?thesis using Cons.prems by (simp only: scan_loop_step returns_in_Cons) simp
  next
    case False
    then have "1 \<le> braceCount (scan_step st c)" using Cons.prems scan_step_depth by blast
    from Cons.IH[OF this] False Cons.prems show ?thesis
      by (simp only: scan_loop_step returns_in_Cons) (simp split: option.splits)
  qed
qed

subsection \<open>trim\<close>

lemma trim_Nil [simp]: "trim [] = []"
  by (simp add: trim_def)

lemma trim_end_prefix: "prefix (rev (dropWhile P (rev xs))) xs"
  by (metis prefixI rev_append rev_rev_ident takeWhile_dropWhile_id)

lemma trim_end_last: "rev (dropWhile P (rev xs)) \<noteq> [] \<Longrightarrow> \<not> P (last (rev (dropWhile P (rev xs))))"
  by (induction xs rule: rev_induct) auto

lemma trim_end_id: "xs \<noteq> [] \<Longrightarrow> \<not> P (last xs) \<Longrightarrow> rev (dropWhile P (rev xs)) = xs"
  by (cases xs rule: rev_cases) auto

lemma trim_end_hd: "xs \<noteq> [] \<Longrightarrow> \<not> P (hd xs) \<Longrightarrow> rev (dropWhile P (rev xs)) \<noteq> []"
  by (auto simp: dropWhile_eq_Nil_conv)

lemma trim_last: "trim s \<noteq> [] \<Longrightarrow> \<not> is_space (last (trim s))"
  unfolding trim_def by (rule trim_end_last)

lemma trim_front: "s \<noteq> [] \<Longrightarrow> \<not> is_space (hd s) \<Longrightarrow> trim s \<noteq> [] \<and> prefix (trim s) s"
proof -
  assume a: "s \<noteq> []" "\<not> is_space (hd s)"
  then have d: "dropWhile is_space s = s" by (cases s) auto
  show ?thesis unfolding trim_def d using a trim_end_hd trim_end_prefix by blast
qed

lemma trim_id: "s \<noteq> [] \<Longrightarrow> \<not> is_space (hd s) \<Longrightarrow> \<not> is_space (last s) \<Longrightarrow> trim s = s"
proof -
  assume a: "s \<noteq> []" "\<not> is_space (hd s)" "\<not> is_space (last s)"
  then have d: "dropWhile is_space s = s" by (cases s) auto
  show ?thesis unfolding trim_def d using a by (simp add: trim_end_id)
qed

lemma trim_decomp: "\<exists>a b. s = a @ trim s @ b \<and> list_all is_space a \<and> list_all is_space b"
proof -
  let ?a = "takeWhile is_space s" and ?d = "dropWhile is_space s"
  let ?b = "rev (takeWhile is_space (rev ?d))"
  have 1: "s = ?a @ ?d" by simp
  have 2: "?d = trim s @ ?b"
    unfolding trim_def by (metis rev_append rev_rev_ident takeWhile_dropWhile_id)
  have 3: "list_all is_space ?a" by (simp add: list_all_iff) (meson set_takeWhileD)
  have 4: "list_all is_space ?b" by (simp add: list_all_iff) (meson set_takeWhileD)
  from 1 2 have "s = ?a @ trim s @ ?b" by simp
  with 3 4 show ?thesis by blast
qed

subsection \<open>the tail test\<close>

lemma tail_test: "replace_opt_semi_end (trim r) = [] \<longleftrightarrow> at_most_one_semi r"
proof (cases "trim r = []")
  case True
  then show ?thesis by (simp add: at_most_one_semi_def)
next
  case False
  then obtain c cs where u: "trim r = c # cs" by (cases "trim r") auto
  from False have l: "\<not> is_space (last (trim r))" by (rule trim_last)
  have "list_all is_space cs \<longleftrightarrow> cs = []"
    using l u by (cases cs rule: rev_cases) auto
  moreover have "\<not> list_all is_space (c # cs)"
    using l u by (cases cs rule: rev_cases) auto
  ultimately show ?thesis using u
    by (auto simp: at_most_one_semi_def)
qed

subsection \<open>the loop against the depth counter\<close>

lemma first_return_eq: "first_return t = returns_in scan_init t"
  by (simp add: first_return_def returns_in_def depth_def)

lemma isCompleteJSON_spec: "isCompleteJSON text = spec_isComplete at_most_one_semi text"
proof (cases "prefix ''{'' (trim text)")
  case False
  then show ?thesis by (simp add: isCompleteJSON_def spec_isComplete_def)
next
  case True
  then obtain cs where t: "trim text = CHR ''{'' # cs" by (auto simp: prefix_def)
  let ?st = "scan_step scan_init (CHR ''{'')"
  have b: "braceCount ?st = 1" by (simp add: scan_step_def scan_init_def)
  have l: "scan_loop (CHR ''{'' # cs) scan_init = scan_loop cs ?st"
    by (simp add: scan_step_def scan_init_def)
  have r: "first_return (CHR ''{'' # cs) = map_option Suc (returns_in ?st cs)"
    by (simp add: first_return_eq returns_in_Cons b)
  have "scan_loop cs ?st = (case returns_in ?st cs of None \<Rightarrow> False
          | Some n \<Rightarrow> replace_opt_semi_end (trim (drop n cs)) = [])"
    by (rule scan_loop_returns) (simp add: b)
  then show ?thesis
    by (simp add: isCompleteJSON_def spec_isComplete_def t l r tail_test del: scan_loop.simps
        split: option.splits)
qed

subsection \<open>what a first return to depth 0 means\<close>

lemma first_return_Some:
  "first_return t = Some n \<longleftrightarrow>
     1 \<le> n \<and> n \<le> length t \<and> depth t n = 0 \<and> (\<forall>m. 1 \<le> m \<and> m < n \<longrightarrow> depth t m \<noteq> 0)"
proof
  assume "first_return t = Some n"
  then obtain i where i: "i < length [1..<Suc (length t)]" "depth t ([1..<Suc (length t)] ! i) = 0"
     "n = [1..<Suc (length t)] ! i" "\<forall>j<i. depth t ([1..<Suc (length t)] ! j) \<noteq> 0"
    unfolding first_return_def find_Some_iff by blast
  from i(1) have il: "i < length t" by (simp del: upt_Suc)
  then have n: "n = Suc i" using i(3) by (simp del: upt_Suc)
  have "depth t m \<noteq> 0" if "1 \<le> m" "m < n" for m
  proof -
    from that n have "m - 1 < i" by simp
    with i(4) have "depth t ([1..<Suc (length t)] ! (m - 1)) \<noteq> 0" by blast
    moreover have "[1..<Suc (length t)] ! (m - 1) = m" using that n il by (simp del: upt_Suc)
    ultimately show ?thesis by simp
  qed
  with i(2) n il show "1 \<le> n \<and> n \<le> length t \<and> depth t n = 0 \<and> (\<forall>m. 1 \<le> m \<and> m < n \<longrightarrow> depth t m \<noteq> 0)"
    by (simp del: upt_Suc)
next
  assume a: "1 \<le> n \<and> n \<le> length t \<and> depth t n = 0 \<and> (\<forall>m. 1 \<le> m \<and> m < n \<longrightarrow> depth t m \<noteq> 0)"
  then have "n - 1 < length t" by arith
  then have "n - 1 < length [1..<Suc (length t)]" by (simp del: upt_Suc)
  moreover have "[1..<Suc (length t)] ! (n - 1) = n" using a by (simp del: upt_Suc)
  moreover have "\<forall>j<n - 1. depth t ([1..<Suc (length t)] ! j) \<noteq> 0"
  proof (intro allI impI)
    fix j assume j: "j < n - 1"
    with a have "j < length t" by arith
    then have "[1..<Suc (length t)] ! j = Suc j" by (simp del: upt_Suc)
    moreover from j have "Suc j < n" by arith
    ultimately show "depth t ([1..<Suc (length t)] ! j) \<noteq> 0" using a by simp
  qed
  ultimately show "first_return t = Some n"
    unfolding first_return_def find_Some_iff using a by (metis)
qed

lemma first_return_None:
  "first_return t = None \<longleftrightarrow> (\<forall>n. 1 \<le> n \<and> n \<le> length t \<longrightarrow> depth t n \<noteq> 0)"
  unfolding first_return_def find_None_iff by (auto simp del: upt_Suc)

lemma depth_Suc: "k < length t \<Longrightarrow>
  depth t (Suc k) = braceCount (scan_step (foldl scan_step scan_init (take k t)) (t ! k))"
  by (simp add: depth_def take_Suc_conv_app_nth)

lemma scan_step_same_depth:
  "c \<noteq> CHR ''{'' \<Longrightarrow> c \<noteq> CHR ''}'' \<Longrightarrow> braceCount (scan_step st c) = braceCount st"
  by (simp add: scan_step_def)

lemma scan_step_change:
  "braceCount (scan_step st c) \<noteq> braceCount st \<Longrightarrow>
   \<not> inString (scan_step st c) \<and> \<not> escapeNext (scan_step st c)"
  by (auto simp: scan_step_def split: if_splits)

lemma scan_step_idle:
  "\<not> inString st \<Longrightarrow> \<not> escapeNext st \<Longrightarrow> is_space c \<or> c = CHR '';'' \<Longrightarrow> scan_step st c = st"
  by (auto simp: scan_step_def is_space_def)

lemma scan_idle_tail:
  "\<not> inString st \<Longrightarrow> \<not> escapeNext st \<Longrightarrow> only_space_or_semi r \<Longrightarrow> foldl scan_step st r = st"
  by (induction r) (auto simp: only_space_or_semi_def scan_step_idle)

lemma at_most_one_semi_only: "at_most_one_semi r \<Longrightarrow> only_space_or_semi r"
proof -
  assume a: "at_most_one_semi r"
  obtain x y where r: "r = x @ trim r @ y" "list_all is_space x" "list_all is_space y"
    using trim_decomp by blast
  from a have "list_all (\<lambda>c. is_space c \<or> c = CHR '';'') (trim r)"
    by (auto simp: at_most_one_semi_def)
  with r(2,3) have "list_all (\<lambda>c. is_space c \<or> c = CHR '';'') (x @ trim r @ y)"
    by (auto simp: list_all_iff)
  with r(1) show ?thesis by (simp add: only_space_or_semi_def)
qed

lemma depth_one: "prefix ''{'' t \<Longrightarrow> depth t 1 = 1"
  by (auto simp: prefix_def depth_def scan_step_def scan_init_def)

lemma first_return_flags:
  assumes "prefix ''{'' t" "first_return t = Some n"
  shows "\<not> inString (foldl scan_step scan_init (take n t)) \<and>
         \<not> escapeNext (foldl scan_step scan_init (take n t))"
proof -
  from assms(2) have n: "1 \<le> n" "n \<le> length t" "depth t n = 0"
    "\<forall>m. 1 \<le> m \<and> m < n \<longrightarrow> depth t m \<noteq> 0"
    by (simp_all add: first_return_Some)
  from depth_one[OF assms(1)] n(3) have "n \<noteq> 1" by auto
  with n(1) obtain k where k: "n = Suc k" "1 \<le> k" by (cases n) auto
  with n have kl: "k < length t" and dk: "depth t k \<noteq> 0" by auto
  let ?S = "foldl scan_step scan_init (take k t)"
  have "braceCount (scan_step ?S (t ! k)) \<noteq> braceCount ?S"
    using depth_Suc[OF kl] n(3) dk k(1) by (simp add: depth_def)
  then have "\<not> inString (scan_step ?S (t ! k)) \<and> \<not> escapeNext (scan_step ?S (t ! k))"
    by (rule scan_step_change)
  then show ?thesis using k(1) kl by (simp add: take_Suc_conv_app_nth)
qed

lemma complete_not_inString:
  assumes "isCompleteJSON text"
  shows "\<not> inString (foldl scan_step scan_init (trim text))"
proof -
  let ?t = "trim text"
  from assms have p: "prefix ''{'' ?t"
    by (auto simp: isCompleteJSON_spec spec_isComplete_def Let_def)
  from assms obtain n where n: "first_return ?t = Some n" "at_most_one_semi (drop n ?t)"
    by (auto simp: isCompleteJSON_spec spec_isComplete_def Let_def split: option.splits)
  let ?S = "foldl scan_step scan_init (take n ?t)"
  have f: "\<not> inString ?S \<and> \<not> escapeNext ?S" using p n(1) by (rule first_return_flags)
  have "foldl scan_step scan_init ?t = foldl scan_step ?S (drop n ?t)"
    by (metis append_take_drop_id foldl_append)
  also have "\<dots> = ?S" using f n(2) by (simp add: scan_idle_tail at_most_one_semi_only)
  finally show ?thesis using f by simp
qed

subsection \<open>balanced literals and their prefixes\<close>

lemma balanced_last:
  assumes "balanced_literal s"
  shows "s \<noteq> [] \<and> hd s = CHR ''{'' \<and> (last s = CHR ''{'' \<or> last s = CHR ''}'')"
proof -
  from assms have p: "prefix ''{'' s" and r: "first_return s = Some (length s)"
    by (simp_all add: balanced_literal_def)
  from p have ne: "s \<noteq> []" and h: "hd s = CHR ''{''" by (auto simp: prefix_def)
  from r have d: "depth s (length s) = 0" "\<forall>m. 1 \<le> m \<and> m < length s \<longrightarrow> depth s m \<noteq> 0"
    by (simp_all add: first_return_Some)
  from depth_one[OF p] d(1) have "length s \<noteq> 1" by auto
  moreover from ne have "length s \<noteq> 0" by simp
  ultimately have "length s = Suc (length s - 1) \<and> 1 \<le> length s - 1" by arith
  then obtain k where k: "length s = Suc k" "1 \<le> k" by blast
  then have dk: "depth s k \<noteq> 0" using d(2) by simp
  have kl: "k < length s" using k by simp
  let ?S = "foldl scan_step scan_init (take k s)"
  have "braceCount (scan_step ?S (s ! k)) \<noteq> braceCount ?S"
    using depth_Suc[OF kl] d(1) dk k(1) by (simp add: depth_def)
  then have "s ! k = CHR ''{'' \<or> s ! k = CHR ''}''"
    using scan_step_same_depth by blast
  moreover have "last s = s ! k" using k ne by (simp add: last_conv_nth)
  ultimately show ?thesis using ne h by simp
qed

lemma depth_prefix: "prefix p s \<Longrightarrow> n \<le> length p \<Longrightarrow> depth p n = depth s n"
  by (auto simp: prefix_def depth_def)

lemma balanced_complete:
  assumes "balanced_literal s"
  shows "isCompleteJSON s"
proof -
  from balanced_last[OF assms] have "trim s = s"
    by (intro trim_id) (auto simp: is_space_def)
  then show ?thesis using assms
    by (simp add: isCompleteJSON_spec spec_isComplete_def balanced_literal_def at_most_one_semi_def)
qed

lemma balanced_prefix_incomplete:
  assumes "balanced_literal s" "strict_prefix p s" "p \<noteq> []"
  shows "\<not> isCompleteJSON p"
proof -
  from assms(1) have ps: "prefix ''{'' s" and r: "first_return s = Some (length s)"
    by (simp_all add: balanced_literal_def)
  from assms(2) have pp: "prefix p s" and lp: "length p < length s"
    by (auto simp: strict_prefix_def prefix_def)
  from ps pp assms(3) have hp: "hd p = CHR ''{''" by (auto simp: prefix_def neq_Nil_conv)
  then have "\<not> is_space (hd p)" by (simp add: is_space_def)
  with assms(3) have t: "trim p \<noteq> []" "prefix (trim p) p" using trim_front by blast+
  with pp have ts: "prefix (trim p) s" by auto
  from t(2) have "length (trim p) \<le> length p" by (rule prefix_length_le)
  with lp have lt: "length (trim p) < length s" by simp
  have "depth (trim p) n \<noteq> 0" if "1 \<le> n" "n \<le> length (trim p)" for n
  proof -
    have "depth (trim p) n = depth s n" using ts that(2) by (rule depth_prefix)
    moreover have "depth s n \<noteq> 0" using r that lt by (simp add: first_return_Some)
    ultimately show ?thesis by simp
  qed
  then have "first_return (trim p) = None" by (simp add: first_return_None)
  then show ?thesis by (simp add: isCompleteJSON_spec spec_isComplete_def)
qed

subsection \<open>literals of the grammar are balanced\<close>

lemma depths_ge_start: "depths_ge d st xs \<Longrightarrow> d \<le> braceCount st"
  by (cases xs) auto

lemma depths_ge_append:
  "depths_ge d st (xs @ ys) = (depths_ge d st xs \<and> depths_ge d (foldl scan_step st xs) ys)"
  by (induction xs arbitrary: st) (auto dest: depths_ge_start)

lemma depths_ge_take:
  "depths_ge d st xs \<Longrightarrow> d \<le> braceCount (foldl scan_step st (take n xs))"
proof (induction xs arbitrary: st n)
  case Nil
  then show ?case by simp
next
  case (Cons c cs)
  then show ?case by (cases n) auto
qed

lemma string_scan:
  "string_body q t \<Longrightarrow> inString st \<Longrightarrow> stringChar st = Some q \<Longrightarrow> \<not> escapeNext st \<Longrightarrow>
   foldl scan_step st t = st \<and> depths_ge (braceCount st) st t"
proof (induction t rule: string_body.induct)
  case sb_end
  then show ?case by simp
next
  case (sb_char c t)
  then have "scan_step st c = st" by (simp add: scan_step_def)
  with sb_char show ?case by simp
next
  case (sb_escape t c)
  then have "scan_step (scan_step st (CHR 0x5C)) c = st" "braceCount (scan_step st (CHR 0x5C)) = braceCount st"
    by (simp_all add: scan_step_def)
  with sb_escape show ?case by simp
qed

lemma body_scan:
  "literal_body b \<Longrightarrow> \<not> inString st \<Longrightarrow> stringChar st = None \<Longrightarrow> \<not> escapeNext st \<Longrightarrow>
   foldl scan_step st b = st \<and> depths_ge (braceCount st) st b"
proof (induction b arbitrary: st rule: literal_body.induct)
  case lb_end
  then show ?case by simp
next
  case (lb_char c s)
  then have "scan_step st c = st" by (simp add: scan_step_def)
  with lb_char show ?case by simp
next
  case (lb_string q t s)
  let ?st1 = "scan_step st q"
  from lb_string have 1: "inString ?st1" "stringChar ?st1 = Some q" "\<not> escapeNext ?st1"
    "braceCount ?st1 = braceCount st"
    by (auto simp: scan_step_def)
  from string_scan[OF lb_string(2) 1(1,2,3)] have 2: "foldl scan_step ?st1 t = ?st1"
    "depths_ge (braceCount st) ?st1 t" by (simp_all add: 1(4))
  from lb_string have 3: "scan_step ?st1 q = st" by (auto simp: scan_step_def)
  from lb_string.IH[OF lb_string.prems] have 4: "foldl scan_step st s = st" "depths_ge (braceCount st) st s"
    by simp_all
  show ?case using 1(4) 2 3 4 by (simp add: depths_ge_append)
next
  case (lb_nested b s)
  let ?st1 = "scan_step st (CHR ''{'')"
  from lb_nested.prems have 1: "\<not> inString ?st1" "stringChar ?st1 = None" "\<not> escapeNext ?st1"
    "braceCount ?st1 = braceCount st + 1"
    by (auto simp: scan_step_def)
  from lb_nested.IH(1)[OF 1(1,2,3)] have 2: "foldl scan_step ?st1 b = ?st1"
    "depths_ge (braceCount st + 1) ?st1 b" by (simp_all add: 1(4))
  from lb_nested.prems have 3: "scan_step ?st1 (CHR ''}'') = st" by (auto simp: scan_step_def)
  from lb_nested.IH(2)[OF lb_nested.prems] have 4: "foldl scan_step st s = st" "depths_ge (braceCount st) st s"
    by simp_all
  have mono: "\<And>d d' st xs. depths_ge d st xs \<Longrightarrow> d' \<le> d \<Longrightarrow> depths_ge d' st xs"
  proof -
    fix d d' :: int and st xs
    show "depths_ge d st xs \<Longrightarrow> d' \<le> d \<Longrightarrow> depths_ge d' st xs"
      by (induction xs arbitrary: st) auto
  qed
  from 2(2) have 5: "depths_ge (braceCount st) ?st1 b" by (rule mono) simp
  show ?case using 1(4) 2(1) 3 4 5 by (simp add: depths_ge_append)
qed

lemma literal_balanced: "object_literal s \<Longrightarrow> balanced_literal s"
proof -
  assume "object_literal s"
  then obtain b where b: "literal_body b" and s: "s = CHR ''{'' # b @ ''}''"
    by (auto simp: object_literal_def)
  let ?st1 = "scan_step scan_init (CHR ''{'')"
  have 1: "\<not> inString ?st1" "stringChar ?st1 = None" "\<not> escapeNext ?st1" "braceCount ?st1 = 1"
    by (simp_all add: scan_step_def scan_init_def)
  from body_scan[OF b 1(1,2,3)] have 2: "foldl scan_step ?st1 b = ?st1" "depths_ge 1 ?st1 b"
    by (simp_all add: 1(4))
  have e: "depth s (length s) = 0"
    using 1 2(1) by (simp add: depth_def s scan_step_def)
  have m: "depth s m \<noteq> 0" if "1 \<le> m" "m < length s" for m
  proof -
    from that obtain k where k: "m = Suc k" "k \<le> length b" by (cases m) (auto simp: s)
    then have "take m s = CHR ''{'' # take k b" by (simp add: s)
    then have "depth s m = braceCount (foldl scan_step ?st1 (take k b))" by (simp add: depth_def)
    moreover have "1 \<le> braceCount (foldl scan_step ?st1 (take k b))"
      using 2(2) by (rule depths_ge_take)
    ultimately show ?thesis by simp
  qed
  have "first_return s = Some (length s)"
    unfolding first_return_Some using e m by (simp add: s)
  then show ?thesis by (simp add: balanced_literal_def s)
qed

section \<open>The block extractor against its contract\<close>

lemma all_space_dropWhile: "list_all is_space w \<Longrightarrow> \<not> is_space c \<Longrightarrow> dropWhile is_space (w @ c # r) = c # r"
  by (induction w) auto

lemma all_space_takeWhile: "list_all is_space w \<Longrightarrow> \<not> is_space c \<Longrightarrow> takeWhile is_space (w @ c # r) = w"
  by (induction w) auto

lemma takeWhile_all_space: "list_all is_space (takeWhile is_space s)"
  by (induction s) auto

lemma match_assign_head_iff:
  "match_assign_head s = Some (h, r) \<longleftrightarrow>
     (\<exists>w1 w2. list_all is_space w1 \<and> list_all is_space w2 \<and>
        h = ''option'' @ w1 @ ''='' @ w2 @ ''{'' \<and> s = h @ r)"
proof
  assume a: "match_assign_head s = Some (h, r)"
  then have p: "prefix ''option'' s" by (auto simp: match_assign_head_def split: if_splits)
  let ?r1 = "drop 6 s"
  from p have s: "s = ''option'' @ ?r1" by (auto simp: prefix_def)
  from a p obtain r2 where r2: "dropWhile is_space ?r1 = CHR ''='' # r2"
    by (auto simp: match_assign_head_def Let_def split: list.splits if_splits)
  with a p have r3: "dropWhile is_space r2 = CHR ''{'' # r"
    and h: "h = ''option'' @ takeWhile is_space ?r1 @ ''='' @ takeWhile is_space r2 @ ''{''"
    by (auto simp: match_assign_head_def Let_def split: list.splits if_splits)
  have "?r1 = takeWhile is_space ?r1 @ dropWhile is_space ?r1" by simp
  with r2 have 1: "?r1 = takeWhile is_space ?r1 @ CHR ''='' # r2" by simp
  have "r2 = takeWhile is_space r2 @ dropWhile is_space r2" by simp
  with r3 have 2: "r2 = takeWhile is_space r2 @ CHR ''{'' # r" by simp
  have "s = h @ r" using s 1 2 h
    by (metis (no_types, opaque_lifting) append.assoc append_Cons append_Nil)
  with h show "\<exists>w1 w2. list_all is_space w1 \<and> list_all is_space w2 \<and>
        h = ''option'' @ w1 @ ''='' @ w2 @ ''{'' \<and> s = h @ r"
    using takeWhile_all_space by blast
next
  assume "\<exists>w1 w2. list_all is_space w1 \<and> list_all is_space w2 \<and>
        h = ''option'' @ w1 @ ''='' @ w2 @ ''{'' \<and> s = h @ r"
  then obtain w1 w2 where w: "list_all is_space w1" "list_all is_space w2"
    and h: "h = ''option'' @ w1 @ ''='' @ w2 @ ''{''" and s: "s = h @ r" by blast
  have e: "\<not> is_space (CHR ''='')" "\<not> is_space (CHR ''{'')" by (simp_all add: is_space_def)
  have d: "drop 6 s = w1 @ CHR ''='' # w2 @ CHR ''{'' # r" using s h by simp
  have p: "prefix ''option'' s" using s h by (simp add: prefix_def)
  show "match_assign_head s = Some (h, r)"
    unfolding match_assign_head_def
    using p w e h
    by (simp add: d Let_def all_space_dropWhile all_space_takeWhile)
qed

lemma head_no_brace:
  "match_assign_head s = Some (h, r) \<Longrightarrow> CHR ''}'' \<notin> set h"
proof -
  assume "match_assign_head s = Some (h, r)"
  then obtain w1 w2 where w: "list_all is_space w1" "list_all is_space w2"
    and h: "h = ''option'' @ w1 @ ''='' @ w2 @ ''{''"
    using match_assign_head_iff [of s h r] by blast
  have "\<not> is_space (CHR ''}'')" by (simp add: is_space_def)
  with w have "CHR ''}'' \<notin> set w1" "CHR ''}'' \<notin> set w2" by (auto simp: list_all_iff)
  then show ?thesis unfolding h by simp
qed

lemma through_last_brace_None: "through_last_brace s = None \<longleftrightarrow> CHR ''}'' \<notin> set s"
  by (simp add: through_last_brace_def)

lemma through_last_brace_append:
  "CHR ''}'' \<in> set r \<Longrightarrow> through_last_brace (h @ r) = map_option ((@) h) (through_last_brace r)"
proof -
  assume a: "CHR ''}'' \<in> set r"
  then have "dropWhile (\<lambda>c. c \<noteq> CHR ''}'') (rev r) \<noteq> []"
    by (auto simp: dropWhile_eq_Nil_conv)
  then have "dropWhile (\<lambda>c. c \<noteq> CHR ''}'') (rev r @ rev h) = dropWhile (\<lambda>c. c \<noteq> CHR ''}'') (rev r) @ rev h"
    by (simp add: dropWhile_append1 dropWhile_eq_Nil_conv)
  with a show ?thesis by (simp add: through_last_brace_def)
qed

lemma match_option_at_eq:
  "match_assign_head s = Some (h, r) \<Longrightarrow> match_option_at s = through_last_brace s"
proof -
  assume a: "match_assign_head s = Some (h, r)"
  then have s: "s = h @ r" using match_assign_head_iff [of s h r] by blast
  show ?thesis
  proof (cases "CHR ''}'' \<in> set r")
    case True
    then show ?thesis using a s
      by (auto simp: match_option_at_def through_last_brace_append split: option.splits)
  next
    case False
    with head_no_brace[OF a] s have "CHR ''}'' \<notin> set s" by simp
    with False show ?thesis using a
      by (simp add: match_option_at_def through_last_brace_def)
  qed
qed

lemma match_option_at_sub:
  "match_option_at s = Some m \<Longrightarrow> CHR ''}'' \<in> set s"
proof -
  assume a: "match_option_at s = Some m"
  then obtain h r where hr: "match_assign_head s = Some (h, r)"
    by (auto simp: match_option_at_def split: option.splits)
  with a have "through_last_brace s = Some m" by (simp add: match_option_at_eq)
  then show ?thesis by (auto simp: through_last_brace_def split: if_splits)
qed

lemma match_option_no_brace: "CHR ''}'' \<notin> set s \<Longrightarrow> match_option s = None"
proof (induction s)
  case Nil
  then show ?case by simp
next
  case (Cons c cs)
  have "match_option_at (c # cs) = None"
  proof (cases "match_option_at (c # cs)")
    case (Some m)
    from match_option_at_sub[OF this] Cons.prems show ?thesis by simp
  qed simp
  with Cons show ?case by simp
qed

lemma find_upt0_shift:
  "find P [0..<Suc n] = (if P 0 then Some 0 else map_option Suc (find (\<lambda>k. P (Suc k)) [0..<n]))"
proof -
  have "[0..<Suc n] = 0 # map Suc [0..<n]"
    by (simp only: map_Suc_upt) (simp add: upt_conv_Cons del: upt_Suc)
  then show ?thesis by (simp only: find_map_shift find.simps)
qed

lemma first_assign_Cons:
  "first_assign (c # cs) =
     (if match_assign_head (c # cs) \<noteq> None then Some 0 else map_option Suc (first_assign cs))"
  unfolding first_assign_def by (simp add: find_upt0_shift del: upt_Suc)

lemma match_option_first:
  "match_option s = (case first_assign s of None \<Rightarrow> None | Some k \<Rightarrow> through_last_brace (drop k s))"
proof (induction s)
  case Nil
  then show ?case by (simp add: first_assign_def)
next
  case (Cons c cs)
  show ?case
  proof (cases "match_assign_head (c # cs)")
    case None
    then have "match_option_at (c # cs) = None" by (simp add: match_option_at_def)
    with None Cons show ?thesis
      by (simp add: first_assign_Cons split: option.splits)
  next
    case (Some hr)
    obtain h r where hr: "hr = (h, r)" by (cases hr)
    with Some have a: "match_assign_head (c # cs) = Some (h, r)" by simp
    have f: "first_assign (c # cs) = Some 0" using a by (simp add: first_assign_Cons)
    show ?thesis
    proof (cases "match_option_at (c # cs)")
      case None
      with match_option_at_eq[OF a] have "through_last_brace (c # cs) = None" by simp
      then have "CHR ''}'' \<notin> set (c # cs)"
        using through_last_brace_None by blast
      then have "match_option cs = None" "through_last_brace (c # cs) = None"
        by (simp_all add: match_option_no_brace through_last_brace_None)
      with None f show ?thesis by simp
    next
      case (Some m)
      with match_option_at_eq[OF a] have "through_last_brace (c # cs) = Some m" by simp
      with Some f show ?thesis by simp
    qed
  qed
qed

lemma first_assign_Some:
  "first_assign s = Some k \<Longrightarrow> k < length s \<and> match_assign_head (drop k s) \<noteq> None"
  unfolding first_assign_def find_Some_iff by (auto simp del: upt_Suc)

lemma first_assign_None:
  "first_assign s = None \<Longrightarrow> match_assign_head (drop k s) = None"
proof -
  assume a: "first_assign s = None"
  show ?thesis
  proof (cases "k < length s")
    case True
    with a have "\<not> match_assign_head (drop k s) \<noteq> None"
      unfolding first_assign_def find_None_iff by (simp del: upt_Suc)
    then show ?thesis by (cases "match_assign_head (drop k s)") auto
  next
    case False
    then show ?thesis by (simp add: match_assign_head_def)
  qed
qed

lemma match_option_Some_iff:
  "match_option s \<noteq> None \<longleftrightarrow>
     (\<exists>pre w1 w2 body post. s = pre @ ''option'' @ w1 @ ''='' @ w2 @ ''{'' @ body @ ''}'' @ post \<and>
        list_all is_space w1 \<and> list_all is_space w2)"
proof
  assume a: "match_option s \<noteq> None"
  then obtain k where k: "first_assign s = Some k" "through_last_brace (drop k s) \<noteq> None"
    by (auto simp: match_option_first split: option.splits)
  from first_assign_Some[OF k(1)] obtain h r where hr: "match_assign_head (drop k s) = Some (h, r)"
    by auto
  then obtain w1 w2 where w: "list_all is_space w1" "list_all is_space w2"
    "h = ''option'' @ w1 @ ''='' @ w2 @ ''{''" "drop k s = h @ r"
    using match_assign_head_iff [of "drop k s" h r] by blast
  from k(2) have "CHR ''}'' \<in> set (drop k s)" by (simp add: through_last_brace_None)
  with head_no_brace[OF hr] w(4) have "CHR ''}'' \<in> set r" by auto
  then obtain body post where r: "r = body @ CHR ''}'' # post" by (meson split_list)
  from w(3,4) r have "drop k s = ''option'' @ w1 @ ''='' @ w2 @ ''{'' @ body @ ''}'' @ post"
    by simp
  then have "s = take k s @ ''option'' @ w1 @ ''='' @ w2 @ ''{'' @ body @ ''}'' @ post"
    by (metis append_take_drop_id)
  with w(1,2) show "\<exists>pre w1 w2 body post. s = pre @ ''option'' @ w1 @ ''='' @ w2 @ ''{'' @ body @ ''}'' @ post \<and>
        list_all is_space w1 \<and> list_all is_space w2" by blast
next
  assume "\<exists>pre w1 w2 body post. s = pre @ ''option'' @ w1 @ ''='' @ w2 @ ''{'' @ body @ ''}'' @ post \<and>
        list_all is_space w1 \<and> list_all is_space w2"
  then obtain pre w1 w2 body post where
    s: "s = pre @ ''option'' @ w1 @ ''='' @ w2 @ ''{'' @ body @ ''}'' @ post"
    and w: "list_all is_space w1" "list_all is_space w2" by blast
  let ?h = "''option'' @ w1 @ ''='' @ w2 @ ''{''"
  from s have d: "drop (length pre) s = ?h @ (body @ ''}'' @ post)" by simp
  have m: "match_assign_head (drop (length pre) s) = Some (?h, body @ ''}'' @ post)"
    by (intro iffD2[OF match_assign_head_iff] exI[of _ w1] exI[of _ w2]) (simp add: w d)
  show "match_option s \<noteq> None"
  proof (cases "first_assign s")
    case None
    from first_assign_None[OF None, of "length pre"] m show ?thesis by simp
  next
    case (Some k)
    have "\<not> length pre < k"
    proof
      assume "length pre < k"
      moreover from Some have "\<forall>j<k. \<not> match_assign_head (drop j s) \<noteq> None"
        unfolding first_assign_def find_Some_iff by (auto simp del: upt_Suc)
      ultimately have "match_assign_head (drop (length pre) s) = None" by blast
      with m show False by simp
    qed
    then have "k \<le> length pre" by simp
    then have "set (drop (length pre) s) \<subseteq> set (drop k s)"
      by (rule set_drop_subset_set_drop)
    moreover have "CHR ''}'' \<in> set (drop (length pre) s)" unfolding d by simp
    ultimately have "CHR ''}'' \<in> set (drop k s)" by blast
    with Some show ?thesis by (simp add: match_option_first through_last_brace_def)
  qed
qed

section \<open>The rows of a Markdown table\<close>


















section \<open>Properties of the stream handlers\<close>

lemma append_content_status:
  "thinkingStatus (message (append_content s st)) =
     (if thinkingStatus (message st) = Start then Thinking else thinkingStatus (message st))"
  by (simp add: append_content_def Let_def)

lemma callApiSSE_catch_status:
  "thinkingStatus (message (callApiSSE_catch chunk st)) = thinkingStatus (message st)"
  by (simp add: callApiSSE_catch_def Let_def)

lemma sendMessage_catch_status:
  "thinkingStatus (message (sendMessage_catch chunk st)) =
     (if chunk \<noteq> [] \<and> thinkingStatus (message st) = Start then Thinking
      else thinkingStatus (message st))"
  by (simp add: sendMessage_catch_def append_content_status)

lemma mark_done_status: "thinkingStatus (message (mark_done st)) = End"
  by (simp add: mark_done_def)

lemma stream_done_status: "thinkingStatus (message (stream_done st)) = End"
  by (simp add: stream_done_def)

lemma callApiSSE_json_terminal:
  assumes "terminal (thinkingStatus (message st))"
    and "get_prop json ''type'' = JStr ''status'' \<longrightarrow> terminal (status_thinking (status_type pf json))"
  shows "terminal (thinkingStatus (message (callApiSSE_json pf chunk json st)))"
  using assms
  by (auto simp: callApiSSE_json_def callApiSSE_catch_status append_content_status mark_done_status
      Let_def terminal_def split: option.splits)

lemma sendMessage_json_terminal:
  assumes "terminal (thinkingStatus (message st))"
    and "get_prop json ''type'' = JStr ''status'' \<longrightarrow> terminal (status_thinking (status_type pf json))"
  shows "terminal (thinkingStatus (message (sendMessage_json pf chunk json st)))"
  using assms
  by (auto simp: sendMessage_json_def sendMessage_catch_status append_content_status mark_done_status
      Let_def terminal_def split: option.splits)

lemma callApiSSE_chunk_terminal:
  assumes "terminal (thinkingStatus (message st))" "\<not> reverting_status pf data"
  shows "terminal (thinkingStatus (message (callApiSSE_chunk pf data st)))"
proof (cases data)
  case None
  with assms show ?thesis by (simp add: callApiSSE_chunk_def)
next
  case (Some chunk)
  show ?thesis
  proof (cases "trim chunk = ''[DONE]''")
    case True
    with Some show ?thesis by (simp add: callApiSSE_chunk_def stream_done_status terminal_def)
  next
    case False
    show ?thesis
    proof (cases "JSON_parse pf chunk")
      case None
      with Some False assms(1) show ?thesis
        by (simp add: callApiSSE_chunk_def callApiSSE_catch_status)
    next
      case (Some json)
      with \<open>data = Some chunk\<close> False assms(2)
      have "get_prop json ''type'' = JStr ''status'' \<longrightarrow> terminal (status_thinking (status_type pf json))"
        by (simp add: reverting_status_def)
      from callApiSSE_json_terminal[OF assms(1) this] Some \<open>data = Some chunk\<close> False
      show ?thesis by (simp add: callApiSSE_chunk_def)
    qed
  qed
qed

lemma sendMessage_chunk_terminal:
  assumes "terminal (thinkingStatus (message st))" "\<not> reverting_status pf data"
    "sendMessage_chunk pf data st = Inr st'"
  shows "terminal (thinkingStatus (message st'))"
proof (cases data)
  case None
  with assms show ?thesis by (simp add: sendMessage_chunk_def)
next
  case (Some chunk)
  with assms(3) have ne: "chunk \<noteq> []" by (auto simp: sendMessage_chunk_def split: if_splits)
  show ?thesis
  proof (cases "trim chunk = ''[DONE]''")
    case True
    with Some ne assms(3) show ?thesis
      by (auto simp: sendMessage_chunk_def stream_done_status terminal_def)
  next
    case False
    show ?thesis
    proof (cases "JSON_parse pf chunk")
      case None
      with Some False ne assms(1,3) show ?thesis
        by (auto simp: sendMessage_chunk_def sendMessage_catch_status terminal_def)
    next
      case (Some json)
      with \<open>data = Some chunk\<close> False assms(2)
      have "get_prop json ''type'' = JStr ''status'' \<longrightarrow> terminal (status_thinking (status_type pf json))"
        by (simp add: reverting_status_def)
      from sendMessage_json_terminal[OF assms(1) this] Some \<open>data = Some chunk\<close> False ne assms(3)
      show ?thesis by (auto simp: sendMessage_chunk_def)
    qed
  qed
qed

lemma callApiSSE_fold_terminal:
  "terminal (thinkingStatus (message st)) \<Longrightarrow> \<forall>data \<in> set records. \<not> reverting_status pf data \<Longrightarrow>
   terminal (thinkingStatus (message (foldl (\<lambda>s data. callApiSSE_chunk pf data s) st records)))"
  by (induction records arbitrary: st) (simp_all add: callApiSSE_chunk_terminal)

lemma sendMessage_loop_terminal:
  "terminal (thinkingStatus (message st)) \<Longrightarrow> \<forall>data \<in> set records. \<not> reverting_status pf data \<Longrightarrow>
   terminal (thinkingStatus (message (fst (sendMessage_loop pf records st))))"
proof (induction records arbitrary: st)
  case Nil
  then show ?case by simp
next
  case (Cons data records)
  show ?case
  proof (cases "sendMessage_chunk pf data st")
    case (Inl e)
    with Cons.prems show ?thesis by simp
  next
    case (Inr st')
    with Cons.prems have "terminal (thinkingStatus (message st'))"
      using sendMessage_chunk_terminal by (metis list.set_intros(1))
    with Cons.IH[of st'] Cons.prems(2) Inr show ?thesis by simp
  qed
qed

lemma callApiSSE_watch_terminal:
  assumes "terminal (thinkingStatus (message st))" "\<forall>data \<in> set records. \<not> reverting_status pf data"
  shows "terminal (thinkingStatus (message (callApiSSE_watch pf records st)))"
proof -
  have "\<forall>data \<in> set (drop (processedCount st) records). \<not> reverting_status pf data"
    using assms(2) by (meson in_set_dropD)
  from callApiSSE_fold_terminal[OF assms(1) this] assms(1) show ?thesis
    by (simp add: callApiSSE_watch_def)
qed

lemma sendMessage_watch_terminal:
  assumes "terminal (thinkingStatus (message st))" "\<forall>data \<in> set records. \<not> reverting_status pf data"
  shows "terminal (thinkingStatus (message (fst (sendMessage_watch pf records st))))"
proof -
  have "\<forall>data \<in> set (drop (processedCount st) records). \<not> reverting_status pf data"
    using assms(2) by (meson in_set_dropD)
  from sendMessage_loop_terminal[OF assms(1) this] assms(1) show ?thesis
    by (auto simp: sendMessage_watch_def split: prod.splits option.splits)
qed

lemma legacy_content_find:
  "legacy_content pf json =
     (case find (truthy pf) (legacy_candidates pf json) of None \<Rightarrow> JStr [] | Some v \<Rightarrow> v)"
  by (simp add: legacy_content_def legacy_candidates_def opt_prop_def)

lemma legacy_content_truthy:
  "truthy pf (legacy_content pf json) \<longleftrightarrow> find (truthy pf) (legacy_candidates pf json) \<noteq> None"
proof (cases "find (truthy pf) (legacy_candidates pf json)")
  case None
  then show ?thesis by (simp add: legacy_content_find)
next
  case (Some v)
  then have "truthy pf v" by (auto simp: find_Some_iff)
  with Some show ?thesis by (simp add: legacy_content_find)
qed

subsection \<open>the status branch\<close>

lemma status_display:
  "status_thinking (status_type pf json) =
     (if get_prop (get_prop json ''status'') ''type'' = JStr ''idle'' then Start
      else if get_prop (get_prop json ''status'') ''type'' = JStr ''working'' then Thinking
      else if get_prop (get_prop json ''status'') ''type'' = JStr ''error'' then Error
      else if get_prop (get_prop json ''status'') ''type'' = JStr ''success'' then End
      else Thinking)"
  by (auto simp: status_thinking_def status_type_def or_else_def opt_prop_def)

lemma callApiSSE_status_chunk:
  assumes "trim chunk \<noteq> ''[DONE]''" "JSON_parse pf chunk = Some json"
    "get_prop json ''type'' = JStr ''status''"
  shows "thinkingStatus (message (callApiSSE_chunk pf (Some chunk) st)) =
           status_thinking (status_type pf json)"
proof -
  from assms(3) have "json \<noteq> JNull" by auto
  with assms show ?thesis by (simp add: callApiSSE_chunk_def callApiSSE_json_def)
qed

lemma sendMessage_status_chunk:
  assumes "trim chunk \<noteq> ''[DONE]''" "JSON_parse pf chunk = Some json"
    "get_prop json ''type'' = JStr ''status''" "chunk \<noteq> []"
  shows "\<exists>st'. sendMessage_chunk pf (Some chunk) st = Inr st' \<and>
           thinkingStatus (message st') = status_thinking (status_type pf json)"
proof -
  from assms(3) have "json \<noteq> JNull" by auto
  with assms show ?thesis by (simp add: sendMessage_chunk_def sendMessage_json_def)
qed

section \<open>Claims about the completeness scanner\<close>

text \<open>
  Claim C1, as the code has it.  For every text, \<open>isCompleteJSON\<close> answers true exactly when
  the trimmed text begins with an opening brace, the string-aware depth counter, run
  from the left, returns to 0 for the first time after some number of characters, and what
  follows that closing brace is, once trimmed, empty or one single semicolon.  A text
  whose trimmed form does not begin with an opening brace is incomplete, and so is a text
  that the counter leaves inside a string literal.  After an escaped backslash a quote
  closes the string; after a single backslash it does not.
\<close>

theorem isCompleteJSON_contract:
  "isCompleteJSON text = spec_isComplete at_most_one_semi text \<and>
   (\<not> prefix ''{'' (trim text) \<longrightarrow> \<not> isCompleteJSON text) \<and>
   (inString (foldl scan_step scan_init (trim text)) \<longrightarrow> \<not> isCompleteJSON text) \<and>
   isCompleteJSON (''{\"a'' @ [CHR 0x5C, CHR 0x5C] @ ''\"}'') \<and>
   \<not> isCompleteJSON (''{\"a'' @ [CHR 0x5C] @ ''\"}'')"
proof -
  have "isCompleteJSON (''{\"a'' @ [CHR 0x5C, CHR 0x5C] @ ''\"}'')"
    by (simp add: isCompleteJSON_def trim_def is_space_def scan_init_def)
  moreover have "\<not> isCompleteJSON (''{\"a'' @ [CHR 0x5C] @ ''\"}'')"
    by (simp add: isCompleteJSON_def trim_def is_space_def scan_init_def)
  ultimately show ?thesis
    using isCompleteJSON_spec [of "text"] complete_not_inString [of "text"]
    by (auto simp: spec_isComplete_def Let_def)
qed

theorem isCompleteJSON_contract_witness:
  \<open>isCompleteJSON ''  {"a": "}"} ;'' \<and> spec_isComplete at_most_one_semi ''  {"a": "}"} ;'' \<and>
   \<not> prefix ''{'' (trim ''[1]'') \<and> \<not> isCompleteJSON ''[1]'' \<and>
   inString (foldl scan_step scan_init (trim ''{"a'')) \<and> \<not> isCompleteJSON ''{"a''\<close>
proof -
  have 1: \<open>isCompleteJSON ''  {"a": "}"} ;''\<close>
    by (simp add: isCompleteJSON_def trim_def is_space_def scan_init_def)
  have 2: \<open>\<not> prefix ''{'' (trim ''[1]'')\<close>
    by (simp add: trim_def is_space_def)
  have 3: \<open>inString (foldl scan_step scan_init (trim ''{"a''))\<close>
    by (simp add: trim_def is_space_def scan_init_def scan_step_def)
  from 1 isCompleteJSON_contract [of \<open>''  {"a": "}"} ;''\<close>]
  have \<open>spec_isComplete at_most_one_semi ''  {"a": "}"} ;''\<close> by blast
  moreover from 2 isCompleteJSON_contract [of "''[1]''"]
  have "\<not> isCompleteJSON ''[1]''" by blast
  moreover from 3 isCompleteJSON_contract [of \<open>''{"a''\<close>]
  have \<open>\<not> isCompleteJSON ''{"a''\<close> by blast
  ultimately show ?thesis using 1 2 3 by blast
qed

text \<open>
  The claim as the specification words it lets any run of white space and semicolons
  follow the closing brace.  The code strips at most one semicolon: two semicolons after
  the brace make the text incomplete.
\<close>

theorem isCompleteJSON_two_semicolons_counterexample:
  "spec_isComplete only_space_or_semi ''{};;'' \<and> \<not> isCompleteJSON ''{};;''"
  by (simp add: spec_isComplete_def only_space_or_semi_def first_return_def depth_def
      scan_step_def scan_init_def isCompleteJSON_def trim_def is_space_def)

text \<open>
  Claim C4.  A balanced, string-aware literal is a text that begins with an opening brace
  and on which the string-aware depth counter comes back to 0 for the first time at its
  last character; every object literal of the grammar above is one.  Every such literal
  is complete and none of its strict non-empty prefixes is.
\<close>

theorem balanced_literal_complete:
  "(object_literal s \<longrightarrow> balanced_literal s) \<and>
   (balanced_literal s \<longrightarrow>
      isCompleteJSON s \<and> (\<forall>p. strict_prefix p s \<and> p \<noteq> [] \<longrightarrow> \<not> isCompleteJSON p))"
  using literal_balanced balanced_complete balanced_prefix_incomplete by blast

theorem balanced_literal_complete_witness:
  \<open>object_literal ''{"a": "}"}'' \<and> balanced_literal ''{"a": "}"}'' \<and>
   isCompleteJSON ''{"a": "}"}'' \<and>
   strict_prefix ''{"a": "}"'' ''{"a": "}"}'' \<and> \<not> isCompleteJSON ''{"a": "}"''\<close>
proof -
  have 1: "string_body (CHR 0x22) ''a''" by (intro string_body.intros) simp_all
  have 2: "string_body (CHR 0x22) ''}''" by (intro string_body.intros) simp_all
  have 3: "literal_body (CHR 0x22 # ''}'' @ CHR 0x22 # [])"
    by (rule lb_string [OF _ 2 lb_end]) simp
  from 3 have "literal_body [CHR 0x22, CHR ''}'', CHR 0x22]" by simp
  then have "literal_body (CHR '':'' # CHR '' '' # [CHR 0x22, CHR ''}'', CHR 0x22])"
    by (intro lb_char [of "CHR '':''"] lb_char [of "CHR '' ''"]) simp_all
  then have 4: "literal_body ('': '' @ (CHR 0x22 # ''}'' @ CHR 0x22 # []))"
    by simp
  have 5: "literal_body (CHR 0x22 # ''a'' @ CHR 0x22 # ('': '' @ (CHR 0x22 # ''}'' @ CHR 0x22 # [])))"
    by (rule lb_string [OF _ 1 4]) simp
  from 5 have 6: \<open>object_literal ''{"a": "}"}''\<close> unfolding object_literal_def
    by (intro exI[of _ "CHR 0x22 # ''a'' @ CHR 0x22 # ('': '' @ (CHR 0x22 # ''}'' @ CHR 0x22 # []))"])
       simp
  have 7: \<open>strict_prefix ''{"a": "}"'' ''{"a": "}"}''\<close>
    by (simp add: strict_prefix_def)
  from balanced_literal_complete [of \<open>''{"a": "}"}''\<close>] 6 7 show ?thesis by blast
qed

section \<open>Claims about the block extractor and the normalizer\<close>

text \<open>
  Claim C3, as the code has it.  The extractor is the match of
  \<open>option\s*=\s*\{([\s\S]*)\}\<close>.  It returns a text exactly when the input contains
  \<open>option\<close>, \<open>=\<close> and an opening brace, separated by optional white space, and a closing
  brace somewhere after them; what it returns runs from the first such \<open>option\<close> through
  the last closing brace of the input, not to the end of the input.
\<close>

theorem match_option_contract:
  "match_option text =
     (case first_assign text of None \<Rightarrow> None | Some k \<Rightarrow> through_last_brace (drop k text)) \<and>
   (match_option text \<noteq> None \<longleftrightarrow>
     (\<exists>pre w1 w2 body post.
        text = pre @ ''option'' @ w1 @ ''='' @ w2 @ ''{'' @ body @ ''}'' @ post \<and>
        list_all is_space w1 \<and> list_all is_space w2))"
  using match_option_first [of "text"] match_option_Some_iff [of "text"] by blast

theorem match_option_contract_witness:
  "match_option ''x option = {a:1} y} z'' = Some ''option = {a:1} y}'' \<and>
   first_assign ''x option = {a:1} y} z'' = Some 2 \<and>
   (\<exists>pre w1 w2 body post.
      ''x option = {a:1} y} z'' = pre @ ''option'' @ w1 @ ''='' @ w2 @ ''{'' @ body @ ''}'' @ post \<and>
      list_all is_space w1 \<and> list_all is_space w2)"
proof -
  have 1: "match_option ''x option = {a:1} y} z'' = Some ''option = {a:1} y}''"
    by code_simp
  have 2: "first_assign ''x option = {a:1} y} z'' = Some 2"
    by code_simp
  from 1 have "match_option ''x option = {a:1} y} z'' \<noteq> None" by simp
  with match_option_contract [of "''x option = {a:1} y} z''"] 1 2 show ?thesis by blast
qed

text \<open>
  The claim as the specification words it: a text is returned whenever the pattern occurs,
  and it runs to the end of the input.  Without a closing brace the code returns \<open>null\<close>,
  and what follows the last closing brace is cut off.
\<close>

theorem match_option_counterexample:
  "spec_extractAssignment ''option = {'' = Some ''option = {'' \<and>
   match_option ''option = {'' = None \<and>
   spec_extractAssignment ''option = {} tail'' = Some ''option = {} tail'' \<and>
   match_option ''option = {} tail'' = Some ''option = {}''"
  by code_simp

text \<open>
  Claim C7.  On the block
  \<open>option = {columns:[{label:'Name',prop:'name'}], data:[{name:'A'}]}\<close>
  the extractor returns the whole block; the normalizer strips the prefix, finds the rest
  complete and rewrites it to strict JSON; and the parse of that text, which is the result
  of \<open>parseTableOption\<close> and of \<open>parseTableData\<close>, is the object with the members
  \<open>columns\<close> and \<open>data\<close> of the block.
\<close>

theorem normalize_round_trip:
  \<open>match_option ''option = {columns:[{label:'Name',prop:'name'}], data:[{name:'A'}]}''
     = Some ''option = {columns:[{label:'Name',prop:'name'}], data:[{name:'A'}]}'' \<and>
   strip_semi_end (strip_option_prefix
       ''option = {columns:[{label:'Name',prop:'name'}], data:[{name:'A'}]}'')
     = ''{columns:[{label:'Name',prop:'name'}], data:[{name:'A'}]}'' \<and>
   isCompleteJSON ''{columns:[{label:'Name',prop:'name'}], data:[{name:'A'}]}'' \<and>
   quote_keys True (single_to_double (remove_trailing_commas
       (replace_word ''False'' ''false'' False (replace_word ''True'' ''true'' False
          (replace_word ''None'' ''null'' False
             ''{columns:[{label:'Name',prop:'name'}], data:[{name:'A'}]}'')))))
     = ''{"columns":[{"label":"Name","prop":"name"}], "data":[{"name":"A"}]}'' \<and>
   parseTableOption model_platform
       ''option = {columns:[{label:'Name',prop:'name'}], data:[{name:'A'}]}''
     = JObj [(''columns'', JArr [JObj [(''label'', JStr ''Name''), (''prop'', JStr ''name'')]]),
             (''data'', JArr [JObj [(''name'', JStr ''A'')]])] \<and>
   parseTableData model_platform
       ''option = {columns:[{label:'Name',prop:'name'}], data:[{name:'A'}]}''
     = JObj [(''columns'', JArr [JObj [(''label'', JStr ''Name''), (''prop'', JStr ''name'')]]),
             (''data'', JArr [JObj [(''name'', JStr ''A'')]])] \<and>
   json_parse ''{"columns":[{"label":"Name","prop":"name"}], "data":[{"name":"A"}]}''
     = Some (JObj [(''columns'', JArr [JObj [(''label'', JStr ''Name''), (''prop'', JStr ''name'')]]),
                   (''data'', JArr [JObj [(''name'', JStr ''A'')]])])\<close>
  by code_simp

text \<open>
  Claim C9, as the code has it.  \<open>parseChartData\<close> returns a configuration exactly when
  the text holds an option assignment for which the normalizer returns a truthy value
  with a truthy member \<open>type\<close>; the configuration is then that value.  No member \<open>data\<close>
  is asked for: whenever the normalizer returns a value with a truthy \<open>type\<close>, that value
  is the result, whether it has a member \<open>data\<close> or not.
\<close>

theorem parseChartData_needs_type:
  "(parseChartData pf code \<noteq> JNull \<longleftrightarrow>
      (\<exists>fullOptionStr. match_option code = Some fullOptionStr \<and>
         truthy pf (parseChartOption pf fullOptionStr) \<and>
         truthy pf (get_prop (parseChartOption pf fullOptionStr) ''type''))) \<and>
   (parseChartData pf code \<noteq> JNull \<longrightarrow>
      truthy pf (get_prop (parseChartData pf code) ''type'') \<and>
      (\<exists>fullOptionStr. match_option code = Some fullOptionStr \<and>
         parseChartData pf code = parseChartOption pf fullOptionStr)) \<and>
   (match_option code = Some fullOptionStr \<and>
    truthy pf (parseChartOption pf fullOptionStr) \<and>
    truthy pf (get_prop (parseChartOption pf fullOptionStr) ''type'') \<longrightarrow>
      parseChartData pf code = parseChartOption pf fullOptionStr)"
proof -
  have t: "truthy pf v \<Longrightarrow> v \<noteq> JNull" for v :: "'a jsval"
    by (cases v) simp_all
  show ?thesis
  proof (cases "match_option code")
    case None
    then show ?thesis by (simp add: parseChartData_def)
  next
    case (Some full)
    show ?thesis
    proof (cases "truthy pf (parseChartOption pf full) \<and>
                  truthy pf (get_prop (parseChartOption pf full) ''type'')")
      case True
      then have "parseChartData pf code = parseChartOption pf full"
        using Some by (simp add: parseChartData_def Let_def)
      with True Some t show ?thesis by auto
    next
      case False
      then have "parseChartData pf code = JNull"
        using Some by (auto simp: parseChartData_def Let_def)
      with False Some show ?thesis by auto
    qed
  qed
qed

theorem parseChartData_needs_type_witness:
  \<open>parseChartData model_platform ''option = {type:'bar', data:[{name:'s', data:[1,2]}]}'' \<noteq> JNull \<and>
   truthy model_platform
     (get_prop (parseChartData model_platform ''option = {type:'bar', data:[{name:'s', data:[1,2]}]}'')
        ''type'') \<and>
   match_option ''option = {type:'pie', title:'T'};'' = Some ''option = {type:'pie', title:'T'}'' \<and>
   parseChartOption model_platform ''option = {type:'pie', title:'T'}'' =
     JObj [(''type'', JStr ''pie''), (''title'', JStr ''T'')] \<and>
   get_prop (JObj [(''type'', JStr ''pie''), (''title'', JStr ''T'')] :: string jsval) ''data'' =
     JUndefined \<and>
   parseChartData model_platform ''option = {type:'pie', title:'T'};'' =
     JObj [(''type'', JStr ''pie''), (''title'', JStr ''T'')]\<close>
proof -
  have 1: \<open>parseChartData model_platform ''option = {type:'bar', data:[{name:'s', data:[1,2]}]}'' \<noteq> JNull\<close>
    by code_simp
  from 1 parseChartData_needs_type
         [of model_platform \<open>''option = {type:'bar', data:[{name:'s', data:[1,2]}]}''\<close>]
  have 2: \<open>truthy model_platform
     (get_prop (parseChartData model_platform ''option = {type:'bar', data:[{name:'s', data:[1,2]}]}'')
        ''type'')\<close> by blast
  have 3: \<open>match_option ''option = {type:'pie', title:'T'};'' = Some ''option = {type:'pie', title:'T'}''\<close>
    by code_simp
  have 4: \<open>parseChartOption model_platform ''option = {type:'pie', title:'T'}'' =
     JObj [(''type'', JStr ''pie''), (''title'', JStr ''T'')]\<close>
    by code_simp
  have 5: \<open>truthy model_platform (parseChartOption model_platform ''option = {type:'pie', title:'T'}'')\<close>
    \<open>truthy model_platform
       (get_prop (parseChartOption model_platform ''option = {type:'pie', title:'T'}'') ''type'')\<close>
    unfolding 4 by simp_all
  have 6: "get_prop (JObj [(''type'', JStr ''pie''), (''title'', JStr ''T'')] :: string jsval) ''data'' =
     JUndefined" by simp
  from parseChartData_needs_type
         [of model_platform \<open>''option = {type:'pie', title:'T'};''\<close> \<open>''option = {type:'pie', title:'T'}''\<close>]
       3 5
  have \<open>parseChartData model_platform ''option = {type:'pie', title:'T'};'' =
     parseChartOption model_platform ''option = {type:'pie', title:'T'}''\<close> by blast
  with 1 2 3 4 6 show ?thesis by simp
qed

text \<open>A complete assignment with a \<open>type\<close> and without \<open>data\<close> is a chart
  configuration.\<close>

theorem parseChartData_without_data_counterexample:
  \<open>parseChartData model_platform ''option = {type:'line'}'' = JObj [(''type'', JStr ''line'')] \<and>
   get_prop (parseChartData model_platform ''option = {type:'line'}'') ''data'' = JUndefined\<close>
  by code_simp

section \<open>Claims about the Markdown table fallback\<close>




section \<open>Claims about the stream handlers\<close>

text \<open>
  Claim C2, as the code has it.  Once the display state of the message is \<open>end\<close> or
  \<open>error\<close>, no sequence of records brings it back to \<open>start\<close> or \<open>thinking\<close>, in either
  handler, provided that no record is a status record whose status type maps to \<open>start\<close>
  or \<open>thinking\<close>.  A status record sets the display state to its mapped value whatever
  the state was, in either handler: \<open>start\<close> for the nested type \<open>idle\<close>, \<open>error\<close> for
  \<open>error\<close>, \<open>end\<close> for \<open>success\<close>, \<open>thinking\<close> otherwise.  An error record \<open>boom\<close>
  followed by an explanation record \<open>ignored\<close> leaves the display state \<open>error\<close>.
\<close>

theorem terminal_status_kept:
  "(terminal (thinkingStatus (message st)) \<and> (\<forall>data \<in> set records. \<not> reverting_status pf data) \<longrightarrow>
      terminal (thinkingStatus (message (callApiSSE_watch pf records st))) \<and>
      terminal (thinkingStatus (message (fst (sendMessage_watch pf records st))))) \<and>
   (trim chunk \<noteq> ''[DONE]'' \<and> JSON_parse pf chunk = Some json \<and>
    get_prop json ''type'' = JStr ''status'' \<longrightarrow>
      (let statusType = get_prop (get_prop json ''status'') ''type'';
           display = (if statusType = JStr ''idle'' then Start
                      else if statusType = JStr ''working'' then Thinking
                      else if statusType = JStr ''error'' then Error
                      else if statusType = JStr ''success'' then End
                      else Thinking)
       in thinkingStatus (message (callApiSSE_chunk pf (Some chunk) st)) = display \<and>
          (chunk \<noteq> [] \<longrightarrow>
             (\<exists>st'. sendMessage_chunk pf (Some chunk) st = Inr st' \<and>
                thinkingStatus (message st') = display)))) \<and>
   thinkingStatus (message (callApiSSE_watch model_platform
      [Some ''{\"type\":\"error\",\"error\":\"boom\"}'',
       Some ''{\"type\":\"explanation\",\"content\":\"ignored\"}''] initial_state)) = Error \<and>
   thinkingStatus (message (fst (sendMessage_watch model_platform
      [Some ''{\"type\":\"error\",\"error\":\"boom\"}'',
       Some ''{\"type\":\"explanation\",\"content\":\"ignored\"}''] initial_state))) = Error"
proof -
  have 1: "terminal (thinkingStatus (message st)) \<and> (\<forall>data \<in> set records. \<not> reverting_status pf data) \<longrightarrow>
      terminal (thinkingStatus (message (callApiSSE_watch pf records st))) \<and>
      terminal (thinkingStatus (message (fst (sendMessage_watch pf records st))))"
    using callApiSSE_watch_terminal [of st records pf] sendMessage_watch_terminal [of st records pf]
    by blast
  have 2: "trim chunk \<noteq> ''[DONE]'' \<and> JSON_parse pf chunk = Some json \<and>
    get_prop json ''type'' = JStr ''status'' \<longrightarrow>
      (let statusType = get_prop (get_prop json ''status'') ''type'';
           display = (if statusType = JStr ''idle'' then Start
                      else if statusType = JStr ''working'' then Thinking
                      else if statusType = JStr ''error'' then Error
                      else if statusType = JStr ''success'' then End
                      else Thinking)
       in thinkingStatus (message (callApiSSE_chunk pf (Some chunk) st)) = display \<and>
          (chunk \<noteq> [] \<longrightarrow>
             (\<exists>st'. sendMessage_chunk pf (Some chunk) st = Inr st' \<and>
                thinkingStatus (message st') = display)))"
    unfolding Let_def status_display [of pf json, symmetric]
    using callApiSSE_status_chunk [of chunk pf json st] sendMessage_status_chunk [of chunk pf json st]
    by blast
  have 3: "thinkingStatus (message (callApiSSE_watch model_platform
      [Some ''{\"type\":\"error\",\"error\":\"boom\"}'',
       Some ''{\"type\":\"explanation\",\"content\":\"ignored\"}''] initial_state)) = Error"
    by code_simp
  have 4: "thinkingStatus (message (fst (sendMessage_watch model_platform
      [Some ''{\"type\":\"error\",\"error\":\"boom\"}'',
       Some ''{\"type\":\"explanation\",\"content\":\"ignored\"}''] initial_state))) = Error"
    by code_simp
  from 1 2 3 4 show ?thesis by blast
qed

theorem terminal_status_kept_witness:
  "terminal (thinkingStatus (message (callApiSSE_watch model_platform
       [Some ''{\"type\":\"error\",\"error\":\"boom\"}''] initial_state))) \<and>
   \<not> reverting_status model_platform (Some ''{\"type\":\"explanation\",\"content\":\"ignored\"}'') \<and>
   \<not> reverting_status model_platform (Some ''plain text'') \<and>
   \<not> reverting_status model_platform (Some ''{\"type\":\"status\",\"status\":{\"type\":\"success\"}}'') \<and>
   \<not> reverting_status model_platform (Some ''[DONE]'') \<and>
   terminal (thinkingStatus (message (callApiSSE_watch model_platform
       [Some ''{\"type\":\"explanation\",\"content\":\"ignored\"}'', Some ''plain text'',
        Some ''{\"type\":\"status\",\"status\":{\"type\":\"success\"}}'', Some ''[DONE]'']
       ((callApiSSE_watch model_platform
          [Some ''{\"type\":\"error\",\"error\":\"boom\"}''] initial_state)\<lparr>processedCount := 0\<rparr>)))) \<and>
   trim ''{\"type\":\"status\",\"status\":{\"type\":\"idle\"}}'' \<noteq> ''[DONE]'' \<and>
   JSON_parse model_platform ''{\"type\":\"status\",\"status\":{\"type\":\"idle\"}}'' =
     Some (JObj [(''type'', JStr ''status''), (''status'', JObj [(''type'', JStr ''idle'')])]) \<and>
   thinkingStatus (message (callApiSSE_chunk model_platform
       (Some ''{\"type\":\"status\",\"status\":{\"type\":\"idle\"}}'')
       (callApiSSE_watch model_platform
          [Some ''{\"type\":\"error\",\"error\":\"boom\"}''] initial_state))) = Start"
proof -
  let ?e = "callApiSSE_watch model_platform
          [Some ''{\"type\":\"error\",\"error\":\"boom\"}''] initial_state"
  let ?st = "?e\<lparr>processedCount := 0\<rparr>"
  let ?recs = "[Some ''{\"type\":\"explanation\",\"content\":\"ignored\"}'', Some ''plain text'',
        Some ''{\"type\":\"status\",\"status\":{\"type\":\"success\"}}'', Some ''[DONE]'']"
  let ?c = "''{\"type\":\"status\",\"status\":{\"type\":\"idle\"}}''"
  let ?j = "JObj [(''type'', JStr ''status''), (''status'', JObj [(''type'', JStr ''idle'')])] :: string jsval"
  have 1: "terminal (thinkingStatus (message ?e))"
    by code_simp
  then have t1: "terminal (thinkingStatus (message ?st))" by simp
  have 2: "\<not> reverting_status model_platform (Some ''{\"type\":\"explanation\",\"content\":\"ignored\"}'')"
    "\<not> reverting_status model_platform (Some ''plain text'')"
    "\<not> reverting_status model_platform (Some ''{\"type\":\"status\",\"status\":{\"type\":\"success\"}}'')"
    "\<not> reverting_status model_platform (Some ''[DONE]'')"
    by code_simp+
  then have 3: "\<forall>data \<in> set ?recs. \<not> reverting_status model_platform data"
    by simp
  have 4: "trim ?c \<noteq> ''[DONE]''" by code_simp
  have 5: "JSON_parse model_platform ?c = Some ?j" by code_simp
  have 6: "get_prop ?j ''type'' = JStr ''status''" by simp
  note th = terminal_status_kept [where st = ?st and records = ?recs and pf = model_platform
      and chunk = ?c and json = ?j]
  from th t1 3 have a: "terminal (thinkingStatus (message (callApiSSE_watch model_platform ?recs ?st)))"
    by blast
  note th2 = terminal_status_kept [where st = ?e and pf = model_platform and chunk = ?c and json = ?j]
  from th2 4 5 6 have
    "let statusType = get_prop (get_prop ?j ''status'') ''type'';
         display = (if statusType = JStr ''idle'' then Start
                    else if statusType = JStr ''working'' then Thinking
                    else if statusType = JStr ''error'' then Error
                    else if statusType = JStr ''success'' then End
                    else Thinking)
     in thinkingStatus (message (callApiSSE_chunk model_platform (Some ?c) ?e)) = display"
    unfolding Let_def by blast
  then have b: "thinkingStatus (message (callApiSSE_chunk model_platform (Some ?c) ?e)) = Start"
    unfolding Let_def by simp
  from 1 2 a 4 5 b show ?thesis by blast
qed

text \<open>
  The claim as worded covers status records too.  After an error record, a status record
  of type \<open>working\<close> or \<open>idle\<close> sets the display state to \<open>thinking\<close> or \<open>start\<close>.
\<close>

theorem terminal_status_reverted_counterexample:
  "thinkingStatus (message (callApiSSE_watch model_platform
      [Some ''{\"type\":\"error\",\"error\":\"boom\"}''] initial_state)) = Error \<and>
   thinkingStatus (message (callApiSSE_watch model_platform
      [Some ''{\"type\":\"error\",\"error\":\"boom\"}'',
       Some ''{\"type\":\"status\",\"status\":{\"type\":\"working\"}}''] initial_state)) = Thinking \<and>
   thinkingStatus (message (fst (sendMessage_watch model_platform
      [Some ''{\"type\":\"error\",\"error\":\"boom\"}''] initial_state))) = Error \<and>
   thinkingStatus (message (fst (sendMessage_watch model_platform
      [Some ''{\"type\":\"error\",\"error\":\"boom\"}'',
       Some ''{\"type\":\"status\",\"status\":{\"type\":\"idle\"}}''] initial_state))) = Start"
  by code_simp

text \<open>
  Claim C5, as the code has it.  For a record that parses to a value of type \<open>status\<close>,
  the status text is the nested \<open>status.content\<close> if it is truthy, else the \<open>content\<close> of
  the record itself if it is truthy, else the default text; the display state is \<open>start\<close>
  for the nested type \<open>idle\<close>, \<open>error\<close> for \<open>error\<close>, \<open>end\<close> for \<open>success\<close> and
  \<open>thinking\<close> for \<open>working\<close>, for an absent type and for any other.  Both handlers set
  the content of the message to the status text and its display state to the mapped
  state, and leave the buffer as it was; \<open>sendMessage\<close> also stores the text in
  \<open>statusContent\<close>.  The record of the specification's scenario gives the text \<open>Done\<close> and
  the state \<open>end\<close>.
\<close>

theorem status_update:
  "(trim chunk \<noteq> ''[DONE]'' \<and> JSON_parse pf chunk = Some json \<and>
    get_prop json ''type'' = JStr ''status'' \<longrightarrow>
      (let status = get_prop json ''status'';
           statusType = get_prop status ''type'';
           text = (if truthy pf (get_prop status ''content'') then get_prop status ''content''
                   else if truthy pf (get_prop json ''content'') then get_prop json ''content''
                   else JStr processing_text);
           display = (if statusType = JStr ''idle'' then Start
                      else if statusType = JStr ''working'' then Thinking
                      else if statusType = JStr ''error'' then Error
                      else if statusType = JStr ''success'' then End
                      else Thinking)
       in content (message (callApiSSE_chunk pf (Some chunk) st)) = text \<and>
          thinkingStatus (message (callApiSSE_chunk pf (Some chunk) st)) = display \<and>
          contentBuffer (callApiSSE_chunk pf (Some chunk) st) = contentBuffer st \<and>
          (chunk \<noteq> [] \<longrightarrow>
             (\<exists>st'. sendMessage_chunk pf (Some chunk) st = Inr st' \<and>
                content (message st') = text \<and>
                statusContent (message st') = Some text \<and>
                thinkingStatus (message st') = display \<and>
                contentBuffer st' = contentBuffer st)))) \<and>
   content (message (callApiSSE_chunk model_platform
      (Some ''{\"type\":\"status\",\"status\":{\"type\":\"success\",\"content\":\"Done\"}}'')
      initial_state)) = JStr ''Done'' \<and>
   thinkingStatus (message (callApiSSE_chunk model_platform
      (Some ''{\"type\":\"status\",\"status\":{\"type\":\"success\",\"content\":\"Done\"}}'')
      initial_state)) = End \<and>
   sendMessage_chunk model_platform
      (Some ''{\"type\":\"status\",\"status\":{\"type\":\"success\",\"content\":\"Done\"}}'')
      initial_state =
     Inr (initial_state\<lparr>message := (message initial_state)
            \<lparr>content := JStr ''Done'', statusContent := Some (JStr ''Done''),
             thinkingStatus := End\<rparr>\<rparr>)"
proof -
  have g: "trim chunk \<noteq> ''[DONE]'' \<and> JSON_parse pf chunk = Some json \<and>
    get_prop json ''type'' = JStr ''status'' \<longrightarrow>
      (let status = get_prop json ''status'';
           statusType = get_prop status ''type'';
           text = (if truthy pf (get_prop status ''content'') then get_prop status ''content''
                   else if truthy pf (get_prop json ''content'') then get_prop json ''content''
                   else JStr processing_text);
           display = (if statusType = JStr ''idle'' then Start
                      else if statusType = JStr ''working'' then Thinking
                      else if statusType = JStr ''error'' then Error
                      else if statusType = JStr ''success'' then End
                      else Thinking)
       in content (message (callApiSSE_chunk pf (Some chunk) st)) = text \<and>
          thinkingStatus (message (callApiSSE_chunk pf (Some chunk) st)) = display \<and>
          contentBuffer (callApiSSE_chunk pf (Some chunk) st) = contentBuffer st \<and>
          (chunk \<noteq> [] \<longrightarrow>
             (\<exists>st'. sendMessage_chunk pf (Some chunk) st = Inr st' \<and>
                content (message st') = text \<and>
                statusContent (message st') = Some text \<and>
                thinkingStatus (message st') = display \<and>
                contentBuffer st' = contentBuffer st)))"
  proof (intro impI)
    assume a: "trim chunk \<noteq> ''[DONE]'' \<and> JSON_parse pf chunk = Some json \<and>
      get_prop json ''type'' = JStr ''status''"
    then have n: "json \<noteq> JNull" by auto
    have t: "status_content pf json =
        (if truthy pf (get_prop (get_prop json ''status'') ''content'')
           then get_prop (get_prop json ''status'') ''content''
         else if truthy pf (get_prop json ''content'') then get_prop json ''content''
         else JStr processing_text)"
      by (simp add: status_content_def or_else_def opt_prop_def)
    have d: "status_thinking (status_type pf json) =
        (if get_prop (get_prop json ''status'') ''type'' = JStr ''idle'' then Start
         else if get_prop (get_prop json ''status'') ''type'' = JStr ''working'' then Thinking
         else if get_prop (get_prop json ''status'') ''type'' = JStr ''error'' then Error
         else if get_prop (get_prop json ''status'') ''type'' = JStr ''success'' then End
         else Thinking)"
      by (auto simp: status_thinking_def status_type_def or_else_def opt_prop_def)
    have c: "callApiSSE_chunk pf (Some chunk) st =
        st\<lparr>message := (message st)
             \<lparr>content := status_content pf json,
              thinkingStatus := status_thinking (status_type pf json)\<rparr>\<rparr>"
      using a n by (simp add: callApiSSE_chunk_def callApiSSE_json_def)
    have s: "chunk \<noteq> [] \<Longrightarrow> sendMessage_chunk pf (Some chunk) st =
        Inr (st\<lparr>message := (message st)
             \<lparr>content := status_content pf json,
              statusContent := Some (status_content pf json),
              thinkingStatus := status_thinking (status_type pf json)\<rparr>\<rparr>)"
      using a n by (simp add: sendMessage_chunk_def sendMessage_json_def)
    show "let status = get_prop json ''status'';
           statusType = get_prop status ''type'';
           text = (if truthy pf (get_prop status ''content'') then get_prop status ''content''
                   else if truthy pf (get_prop json ''content'') then get_prop json ''content''
                   else JStr processing_text);
           display = (if statusType = JStr ''idle'' then Start
                      else if statusType = JStr ''working'' then Thinking
                      else if statusType = JStr ''error'' then Error
                      else if statusType = JStr ''success'' then End
                      else Thinking)
       in content (message (callApiSSE_chunk pf (Some chunk) st)) = text \<and>
          thinkingStatus (message (callApiSSE_chunk pf (Some chunk) st)) = display \<and>
          contentBuffer (callApiSSE_chunk pf (Some chunk) st) = contentBuffer st \<and>
          (chunk \<noteq> [] \<longrightarrow>
             (\<exists>st'. sendMessage_chunk pf (Some chunk) st = Inr st' \<and>
                content (message st') = text \<and>
                statusContent (message st') = Some text \<and>
                thinkingStatus (message st') = display \<and>
                contentBuffer st' = contentBuffer st))"
      unfolding Let_def c t[symmetric] d[symmetric] using s by simp
  qed
  have p1: "content (message (callApiSSE_chunk model_platform
      (Some ''{\"type\":\"status\",\"status\":{\"type\":\"success\",\"content\":\"Done\"}}'')
      initial_state)) = JStr ''Done''"
    by code_simp
  have p2: "thinkingStatus (message (callApiSSE_chunk model_platform
      (Some ''{\"type\":\"status\",\"status\":{\"type\":\"success\",\"content\":\"Done\"}}'')
      initial_state)) = End"
    by code_simp
  have p3: "sendMessage_chunk model_platform
      (Some ''{\"type\":\"status\",\"status\":{\"type\":\"success\",\"content\":\"Done\"}}'')
      initial_state =
     Inr (initial_state\<lparr>message := (message initial_state)
            \<lparr>content := JStr ''Done'', statusContent := Some (JStr ''Done''),
             thinkingStatus := End\<rparr>\<rparr>)"
    by code_simp
  from g p1 p2 p3 show ?thesis by blast
qed

theorem status_update_witness:
  "trim ''{\"type\":\"status\",\"status\":{\"type\":\"idle\"},\"content\":\"top\"}'' \<noteq> ''[DONE]'' \<and>
   JSON_parse model_platform ''{\"type\":\"status\",\"status\":{\"type\":\"idle\"},\"content\":\"top\"}'' =
     Some (JObj [(''type'', JStr ''status''), (''status'', JObj [(''type'', JStr ''idle'')]),
                 (''content'', JStr ''top'')]) \<and>
   get_prop (JObj [(''type'', JStr ''status''), (''status'', JObj [(''type'', JStr ''idle'')]),
                   (''content'', JStr ''top'')] :: string jsval) ''type'' = JStr ''status'' \<and>
   content (message (callApiSSE_chunk model_platform
      (Some ''{\"type\":\"status\",\"status\":{\"type\":\"idle\"},\"content\":\"top\"}'')
      (append_content ''abc'' initial_state))) = JStr ''top'' \<and>
   thinkingStatus (message (callApiSSE_chunk model_platform
      (Some ''{\"type\":\"status\",\"status\":{\"type\":\"idle\"},\"content\":\"top\"}'')
      (append_content ''abc'' initial_state))) = Start \<and>
   contentBuffer (callApiSSE_chunk model_platform
      (Some ''{\"type\":\"status\",\"status\":{\"type\":\"idle\"},\"content\":\"top\"}'')
      (append_content ''abc'' initial_state)) = ''abc''"
proof -
  let ?c = "''{\"type\":\"status\",\"status\":{\"type\":\"idle\"},\"content\":\"top\"}''"
  let ?j = "JObj [(''type'', JStr ''status''), (''status'', JObj [(''type'', JStr ''idle'')]),
                 (''content'', JStr ''top'')] :: string jsval"
  let ?st = "append_content ''abc'' initial_state :: string stream_state"
  have 1: "trim ?c \<noteq> ''[DONE]''" by code_simp
  have 2: "JSON_parse model_platform ?c = Some ?j" by code_simp
  have 3: "get_prop ?j ''type'' = JStr ''status''" by simp
  have 4: "contentBuffer ?st = ''abc''" by (simp add: append_content_def Let_def initial_state_def)
  from status_update [of ?c model_platform ?j ?st] 1 2 3
  have "let status = get_prop ?j ''status'';
           statusType = get_prop status ''type'';
           text = (if truthy model_platform (get_prop status ''content'') then get_prop status ''content''
                   else if truthy model_platform (get_prop ?j ''content'') then get_prop ?j ''content''
                   else JStr processing_text);
           display = (if statusType = JStr ''idle'' then Start
                      else if statusType = JStr ''working'' then Thinking
                      else if statusType = JStr ''error'' then Error
                      else if statusType = JStr ''success'' then End
                      else Thinking)
       in content (message (callApiSSE_chunk model_platform (Some ?c) ?st)) = text \<and>
          thinkingStatus (message (callApiSSE_chunk model_platform (Some ?c) ?st)) = display \<and>
          contentBuffer (callApiSSE_chunk model_platform (Some ?c) ?st) = contentBuffer ?st"
    unfolding Let_def by blast
  then have "content (message (callApiSSE_chunk model_platform (Some ?c) ?st)) = JStr ''top'' \<and>
          thinkingStatus (message (callApiSSE_chunk model_platform (Some ?c) ?st)) = Start \<and>
          contentBuffer (callApiSSE_chunk model_platform (Some ?c) ?st) = contentBuffer ?st"
    unfolding Let_def by simp
  with 1 2 3 4 show ?thesis by simp
qed

text \<open>
  The claim as worded falls back to the default text as soon as the nested content is
  absent.  The code first falls back to the \<open>content\<close> of the record.
\<close>

theorem status_text_counterexample:
  "json_parse ''{\"type\":\"status\",\"status\":{\"type\":\"working\"},\"content\":\"X\"}'' =
     Some (JObj [(''type'', JStr ''status''), (''status'', JObj [(''type'', JStr ''working'')]),
                 (''content'', JStr ''X'')]) \<and>
   claimed_status_text model_platform
     (JObj [(''type'', JStr ''status''), (''status'', JObj [(''type'', JStr ''working'')]),
            (''content'', JStr ''X'')]) = JStr processing_text \<and>
   content (message (callApiSSE_chunk model_platform
     (Some ''{\"type\":\"status\",\"status\":{\"type\":\"working\"},\"content\":\"X\"}'') initial_state))
     = JStr ''X'' \<and>
   sendMessage_chunk model_platform
     (Some ''{\"type\":\"status\",\"status\":{\"type\":\"working\"},\"content\":\"X\"}'') initial_state
     = Inr (initial_state\<lparr>message := (message initial_state)
              \<lparr>content := JStr ''X'', statusContent := Some (JStr ''X''),
               thinkingStatus := Thinking\<rparr>\<rparr>) \<and>
   JStr ''X'' \<noteq> (JStr processing_text :: string jsval)"
  by code_simp

text \<open>
  Claim C6.  In \<open>callApiSSE\<close>, two explanation records \<open>Hel\<close> and \<open>lo\<close> followed by a
  record that is \<open>[DONE]\<close> once trimmed leave the message with the content \<open>Hello\<close>, the
  display state \<open>end\<close> and \<open>isStreaming\<close> false; and whenever the end marker arrives while
  the buffer is empty, the content becomes the non-empty fallback text.
\<close>

theorem stream_end:
  "(trim chunk = ''[DONE]'' \<longrightarrow>
      callApiSSE_watch model_platform
        [Some ''{\"type\":\"explanation\",\"content\":\"Hel\"}'',
         Some ''{\"type\":\"explanation\",\"content\":\"lo\"}'',
         Some chunk] initial_state =
        \<lparr>message = \<lparr>content = JStr ''Hello'', thinkingStatus = End, isStreaming = False,
                     statusContent = None, suggestions = None\<rparr>,
         contentBuffer = ''Hello'', processedCount = 3\<rparr>) \<and>
   (trim chunk = ''[DONE]'' \<and> contentBuffer st = [] \<longrightarrow>
      content (message (callApiSSE_chunk pf (Some chunk) st)) = JStr query_done_text \<and>
      thinkingStatus (message (callApiSSE_chunk pf (Some chunk) st)) = End \<and>
      isStreaming (message (callApiSSE_chunk pf (Some chunk) st)) = False) \<and>
   query_done_text \<noteq> []"
proof -
  have s2: "callApiSSE_chunk model_platform (Some ''{\"type\":\"explanation\",\"content\":\"lo\"}'')
              (callApiSSE_chunk model_platform (Some ''{\"type\":\"explanation\",\"content\":\"Hel\"}'')
                 initial_state) =
        \<lparr>message = \<lparr>content = JStr ''Hello'', thinkingStatus = Thinking, isStreaming = True,
                     statusContent = None, suggestions = None\<rparr>,
         contentBuffer = ''Hello'', processedCount = 0\<rparr>"
    by code_simp
  have 1: "callApiSSE_watch model_platform
        [Some ''{\"type\":\"explanation\",\"content\":\"Hel\"}'',
         Some ''{\"type\":\"explanation\",\"content\":\"lo\"}'',
         Some chunk] initial_state =
        \<lparr>message = \<lparr>content = JStr ''Hello'', thinkingStatus = End, isStreaming = False,
                     statusContent = None, suggestions = None\<rparr>,
         contentBuffer = ''Hello'', processedCount = 3\<rparr>" if "trim chunk = ''[DONE]''"
  proof -
    have p: "processedCount (initial_state :: string stream_state) = 0"
      by (simp add: initial_state_def)
    show ?thesis
      unfolding callApiSSE_watch_def p
      by (simp only: list.simps drop_0 foldl.simps if_False s2)
         (simp add: callApiSSE_chunk_def that stream_done_def)
  qed
  have 2: "content (message (callApiSSE_chunk pf (Some chunk) st)) = JStr query_done_text \<and>
      thinkingStatus (message (callApiSSE_chunk pf (Some chunk) st)) = End \<and>
      isStreaming (message (callApiSSE_chunk pf (Some chunk) st)) = False"
    if "trim chunk = ''[DONE]''" "contentBuffer st = []"
    using that by (simp add: callApiSSE_chunk_def stream_done_def)
  have 3: "query_done_text \<noteq> []" by (simp add: query_done_text_def)
  from 1 2 3 show ?thesis by blast
qed

theorem stream_end_witness:
  "trim ''  [DONE] '' = ''[DONE]'' \<and> contentBuffer (initial_state :: string stream_state) = [] \<and>
   callApiSSE_watch model_platform
        [Some ''{\"type\":\"explanation\",\"content\":\"Hel\"}'',
         Some ''{\"type\":\"explanation\",\"content\":\"lo\"}'',
         Some ''  [DONE] ''] initial_state =
        \<lparr>message = \<lparr>content = JStr ''Hello'', thinkingStatus = End, isStreaming = False,
                     statusContent = None, suggestions = None\<rparr>,
         contentBuffer = ''Hello'', processedCount = 3\<rparr> \<and>
   content (message (callApiSSE_chunk model_platform (Some ''  [DONE] '') initial_state)) =
     JStr query_done_text"
proof -
  have 1: "trim ''  [DONE] '' = ''[DONE]''" by (simp add: trim_def is_space_def)
  have 2: "contentBuffer (initial_state :: string stream_state) = []" by (simp add: initial_state_def)
  from stream_end [of "''  [DONE] ''" initial_state model_platform] 1 2 show ?thesis by blast
qed

text \<open>
  Claim C8, as the code has it.  In \<open>callApiSSE\<close>, for a record that parses to a value
  other than \<open>null\<close> whose \<open>type\<close> is none of \<open>explanation\<close>, \<open>status\<close>, \<open>error\<close>,
  \<open>suggestions\<close> and \<open>done\<close>, the candidates are tried in the order
  \<open>choices[0].delta.content\<close>, \<open>content\<close>, \<open>delta.content\<close>, \<open>text\<close>, \<open>message\<close>,
  \<open>reply\<close>, where \<open>content\<close> counts only if the record has no truthy \<open>type\<close>.  The first
  truthy candidate, converted to a string, is appended to the buffer, the buffer becomes
  the content, and the display state \<open>start\<close> becomes \<open>thinking\<close>; with no truthy
  candidate the state is unchanged.
\<close>

theorem legacy_fallback:
  "trim chunk \<noteq> ''[DONE]'' \<and> JSON_parse pf chunk = Some json \<and> json \<noteq> JNull \<and>
   get_prop json ''type'' \<notin> {JStr ''explanation'', JStr ''status'', JStr ''error'',
                               JStr ''suggestions'', JStr ''done''} \<longrightarrow>
     (case find (truthy pf) (legacy_candidates pf json) of
        None \<Rightarrow> callApiSSE_chunk pf (Some chunk) st = st
      | Some v \<Rightarrow>
          (\<forall>s. toString pf v = Some s \<longrightarrow>
             callApiSSE_chunk pf (Some chunk) st = append_content s st \<and>
             contentBuffer (append_content s st) = contentBuffer st @ s \<and>
             content (message (append_content s st)) = JStr (contentBuffer st @ s) \<and>
             thinkingStatus (message (append_content s st)) =
               (if thinkingStatus (message st) = Start then Thinking
                else thinkingStatus (message st))))"
proof (intro impI)
  assume a: "trim chunk \<noteq> ''[DONE]'' \<and> JSON_parse pf chunk = Some json \<and> json \<noteq> JNull \<and>
   get_prop json ''type'' \<notin> {JStr ''explanation'', JStr ''status'', JStr ''error'',
                               JStr ''suggestions'', JStr ''done''}"
  then have c: "callApiSSE_chunk pf (Some chunk) st =
      (let content = legacy_content pf json
       in if truthy pf content then
            (case toString pf content of None \<Rightarrow> callApiSSE_catch chunk st
             | Some s \<Rightarrow> append_content s st)
          else st)"
    by (simp add: callApiSSE_chunk_def callApiSSE_json_def)
  show "case find (truthy pf) (legacy_candidates pf json) of
        None \<Rightarrow> callApiSSE_chunk pf (Some chunk) st = st
      | Some v \<Rightarrow>
          (\<forall>s. toString pf v = Some s \<longrightarrow>
             callApiSSE_chunk pf (Some chunk) st = append_content s st \<and>
             contentBuffer (append_content s st) = contentBuffer st @ s \<and>
             content (message (append_content s st)) = JStr (contentBuffer st @ s) \<and>
             thinkingStatus (message (append_content s st)) =
               (if thinkingStatus (message st) = Start then Thinking
                else thinkingStatus (message st)))"
  proof (cases "find (truthy pf) (legacy_candidates pf json)")
    case None
    then have "\<not> truthy pf (legacy_content pf json)" by (simp add: legacy_content_truthy)
    with None c show ?thesis by (simp add: Let_def)
  next
    case (Some v)
    then have l: "legacy_content pf json = v" by (simp add: legacy_content_find)
    from Some have t: "truthy pf (legacy_content pf json)" by (simp add: legacy_content_truthy)
    show ?thesis unfolding Some option.case c Let_def l
      using t l by (simp add: append_content_def Let_def)
  qed
qed

theorem legacy_fallback_witness:
  "trim ''{\"choices\":[{\"delta\":{}}],\"text\":\"B\",\"reply\":\"C\"}'' \<noteq> ''[DONE]'' \<and>
   JSON_parse model_platform ''{\"choices\":[{\"delta\":{}}],\"text\":\"B\",\"reply\":\"C\"}'' =
     Some (JObj [(''choices'', JArr [JObj [(''delta'', JObj [])]]), (''text'', JStr ''B''),
                 (''reply'', JStr ''C'')]) \<and>
   find (truthy model_platform)
     (legacy_candidates model_platform
        (JObj [(''choices'', JArr [JObj [(''delta'', JObj [])]]), (''text'', JStr ''B''),
               (''reply'', JStr ''C'')])) = Some (JStr ''B'') \<and>
   callApiSSE_chunk model_platform (Some ''{\"choices\":[{\"delta\":{}}],\"text\":\"B\",\"reply\":\"C\"}'')
     initial_state = append_content ''B'' initial_state \<and>
   trim ''{\"type\":\"ping\"}'' \<noteq> ''[DONE]'' \<and>
   JSON_parse model_platform ''{\"type\":\"ping\"}'' = Some (JObj [(''type'', JStr ''ping'')]) \<and>
   callApiSSE_chunk model_platform (Some ''{\"type\":\"ping\"}'') initial_state = initial_state"
proof -
  let ?c = "''{\"choices\":[{\"delta\":{}}],\"text\":\"B\",\"reply\":\"C\"}''"
  let ?j = "JObj [(''choices'', JArr [JObj [(''delta'', JObj [])]]), (''text'', JStr ''B''),
                 (''reply'', JStr ''C'')] :: string jsval"
  have 1: "trim ?c \<noteq> ''[DONE]''" by code_simp
  have 2: "JSON_parse model_platform ?c = Some ?j" by code_simp
  have 3: "?j \<noteq> JNull" by simp
  have 4: "get_prop ?j ''type'' \<notin> {JStr ''explanation'', JStr ''status'', JStr ''error'',
                               JStr ''suggestions'', JStr ''done''}" by simp
  have 5: "find (truthy model_platform) (legacy_candidates model_platform ?j) = Some (JStr ''B'')"
    by code_simp
  have 6: "toString model_platform (JStr ''B'') = Some ''B''" by simp
  from legacy_fallback [of ?c model_platform ?j initial_state] 1 2 3 4
  have a: "callApiSSE_chunk model_platform (Some ?c) initial_state = append_content ''B'' initial_state"
    unfolding 5 option.case using 6 by blast
  let ?d = "''{\"type\":\"ping\"}''"
  let ?k = "JObj [(''type'', JStr ''ping'')] :: string jsval"
  have 7: "trim ?d \<noteq> ''[DONE]''" by code_simp
  have 8: "JSON_parse model_platform ?d = Some ?k" by code_simp
  have 9: "?k \<noteq> JNull" by simp
  have 10: "get_prop ?k ''type'' \<notin> {JStr ''explanation'', JStr ''status'', JStr ''error'',
                               JStr ''suggestions'', JStr ''done''}" by simp
  have 11: "find (truthy model_platform) (legacy_candidates model_platform ?k) = None"
    by code_simp
  from legacy_fallback [of ?d model_platform ?k initial_state] 7 8 9 10
  have b: "callApiSSE_chunk model_platform (Some ?d) initial_state = initial_state"
    unfolding 11 option.case by blast
  from 1 2 5 a 7 8 b show ?thesis by blast
qed

text \<open>
  The claim as worded takes \<open>content\<close> whatever the type.  A record of an unknown type
  with a \<open>content\<close> changes nothing.
\<close>

theorem legacy_content_with_type_counterexample:
  "json_parse ''{\"type\":\"other\",\"content\":\"hi\"}'' =
     Some (JObj [(''type'', JStr ''other''), (''content'', JStr ''hi'')]) \<and>
   find (truthy model_platform)
     (claimed_candidates model_platform (JObj [(''type'', JStr ''other''), (''content'', JStr ''hi'')]))
     = Some (JStr ''hi'') \<and>
   callApiSSE_chunk model_platform (Some ''{\"type\":\"other\",\"content\":\"hi\"}'') initial_state
     = initial_state \<and>
   contentBuffer (append_content ''hi'' (initial_state :: string stream_state)) = ''hi''"
  by code_simp

end
